theory Spec2Isabelle
  imports Main "HOL-Library.Char_ord" "HOL-Library.List_Lexorder"
begin

section \<open>Strings\<close>

text \<open>
  A source string is modelled as a \<^typ>\<open>string\<close>: one \<^typ>\<open>char\<close> per code unit, so the
  model covers the code units below 256. Character classes of the source's regular
  expressions (\<open>\w\<close>, \<open>\s\<close>, \<open>\d\<close>) are written out as membership tests. Case mapping is
  modelled on the letters a to z; every other code unit maps to itself.
\<close>

definition isWord :: "char \<Rightarrow> bool" where
  "isWord c = (c \<in> set ''abcdefghijklmnopqrstuvwxyzABCDEFGHIJKLMNOPQRSTUVWXYZ0123456789_'')"

definition isDigit :: "char \<Rightarrow> bool" where
  "isDigit c = (c \<in> set ''0123456789'')"

definition isSpace :: "char \<Rightarrow> bool" where
  "isSpace c = (c \<in> set [CHR 0x09, CHR 0x0A, CHR 0x0B, CHR 0x0C, CHR 0x0D, CHR '' '', CHR 0xA0])"

definition isLineTerminator :: "char \<Rightarrow> bool" where
  "isLineTerminator c = (c = CHR 0x0A \<or> c = CHR 0x0D)"

definition toUpperChar :: "char \<Rightarrow> char" where
  "toUpperChar c =
     (case map_of (zip ''abcdefghijklmnopqrstuvwxyz'' ''ABCDEFGHIJKLMNOPQRSTUVWXYZ'') c of
        Some u \<Rightarrow> u | None \<Rightarrow> c)"

definition toLowerChar :: "char \<Rightarrow> char" where
  "toLowerChar c =
     (case map_of (zip ''ABCDEFGHIJKLMNOPQRSTUVWXYZ'' ''abcdefghijklmnopqrstuvwxyz'') c of
        Some u \<Rightarrow> u | None \<Rightarrow> c)"

definition toUpperCase :: "string \<Rightarrow> string" where
  "toUpperCase s = map toUpperChar s"

text \<open>\<open>s.startsWith(p)\<close>, \<open>s.endsWith(p)\<close> and \<open>s.includes(p)\<close>.\<close>

fun startsWith :: "string \<Rightarrow> string \<Rightarrow> bool" where
  "startsWith s [] = True"
| "startsWith [] (p # ps) = False"
| "startsWith (c # s) (p # ps) = (c = p \<and> startsWith s ps)"

definition endsWith :: "string \<Rightarrow> string \<Rightarrow> bool" where
  "endsWith s p = startsWith (rev s) (rev p)"

fun strIncludes :: "string \<Rightarrow> string \<Rightarrow> bool" where
  "strIncludes [] p = (p = [])"
| "strIncludes (c # s) p = (startsWith (c # s) p \<or> strIncludes s p)"

text \<open>
  \<open>s.replace(pat, rep)\<close> with a string pattern: only the first occurrence is replaced.
  The replacement is inserted as it is; every replacement the program passes (\<open>''\<close>,
  \<open>${paramN}\<close>) is free of the \<open>$&\<close>, \<open>$1\<close>, \<open>$$\<close> patterns that the host would expand.
\<close>

fun replaceFirst :: "string \<Rightarrow> string \<Rightarrow> string \<Rightarrow> string" where
  "replaceFirst [] pat rep = (if pat = [] then rep else [])"
| "replaceFirst (c # s) pat rep =
     (if startsWith (c # s) pat then rep @ drop (length pat) (c # s)
      else c # replaceFirst s pat rep)"

text \<open>\<open>s.split(sep)\<close> for a non-empty separator: the result always has at least one piece.\<close>

fun splitStr :: "string \<Rightarrow> string \<Rightarrow> string list" where
  "splitStr sep [] = [[]]"
| "splitStr sep (c # s) =
     (if sep \<noteq> [] \<and> startsWith (c # s) sep
      then [] # splitStr sep (drop (length sep) (c # s))
      else (case splitStr sep s of w # ws \<Rightarrow> (c # w) # ws | [] \<Rightarrow> [[c]]))"

text \<open>\<open>xs.join(sep)\<close> on an array of strings.\<close>

fun joinWith :: "string \<Rightarrow> string list \<Rightarrow> string" where
  "joinWith sep [] = []"
| "joinWith sep [x] = x"
| "joinWith sep (x # y # ys) = x @ sep @ joinWith sep (y # ys)"

text \<open>\<open>xs.pop()\<close> read for its value after a \<open>split\<close>, whose result is never empty.\<close>

definition lastPiece :: "string list \<Rightarrow> string" where
  "lastPiece ws = (case rev ws of [] \<Rightarrow> [] | w # _ \<Rightarrow> w)"

text \<open>\<open>s.trim()\<close>.\<close>

definition trim :: "string \<Rightarrow> string" where
  "trim s = rev (dropWhile isSpace (rev (dropWhile isSpace s)))"

text \<open>The decimal rendering of a non-negative integer inside a template literal.\<close>

fun digitsOf :: "nat \<Rightarrow> string" where
  "digitsOf n =
     (if n < 10 then [''0123456789'' ! n]
      else digitsOf (n div 10) @ [''0123456789'' ! (n mod 10)])"

declare digitsOf.simps [simp del]

text \<open>
  The callback replacement \<open>s.replace(/[seps](\w)/g, (_all, letter) => letter.toUpperCase())\<close>:
  a separator followed by a word character is replaced by that character in upper case;
  matches are found left to right and do not overlap.
\<close>

fun upperAfter :: "string \<Rightarrow> string \<Rightarrow> string" where
  "upperAfter seps (a # b # s) =
     (if a \<in> set seps \<and> isWord b then toUpperChar b # upperAfter seps s
      else a # upperAfter seps (b # s))"
| "upperAfter seps s = s"

text \<open>\<open>text.charAt(0).toUpperCase() + text.slice(1)\<close>.\<close>

fun toUpperFirstLetter :: "string \<Rightarrow> string" where
  "toUpperFirstLetter [] = []"
| "toUpperFirstLetter (c # s) = toUpperChar c # s"

text \<open>\<open>Array.from(new Set(xs))\<close>: the first occurrence of each value, in order.\<close>

fun uniq :: "'a list \<Rightarrow> 'a list" where
  "uniq [] = []"
| "uniq (x # xs) = x # uniq (removeAll x xs)"

section \<open>Document values\<close>

text \<open>
  The input document and every value built from it is JSON data. An object lists its
  members in enumeration order (the order of \<open>Object.keys\<close>). Numbers of the document
  are integers in the model. \<open>getProp v k\<close> is the read \<open>v[k]\<close> of an own member on a value
  that is neither \<open>undefined\<close> nor \<open>null\<close>; for the values of the document, members
  inherited from a prototype (methods such as \<open>toString\<close>) are not part of the model. A
  read on \<open>undefined\<close> or \<open>null\<close> raises, which \<open>getPropE\<close> makes explicit.
\<close>

datatype json =
    JUndefined
  | JNull
  | JBool bool
  | JNum int
  | JStr string
  | JArr "json list"
  | JObj "(string \<times> json) list"

datatype error =
    TypeError
  | DataError string
  | StackExhausted

fun truthy :: "json \<Rightarrow> bool" where
  "truthy JUndefined = False"
| "truthy JNull = False"
| "truthy (JBool b) = b"
| "truthy (JNum n) = (n \<noteq> 0)"
| "truthy (JStr s) = (s \<noteq> [])"
| "truthy (JArr xs) = True"
| "truthy (JObj kvs) = True"

definition indexOfKey :: "nat \<Rightarrow> string \<Rightarrow> nat option" where
  "indexOfKey n k = find (\<lambda>i. digitsOf i = k) [0 ..< n]"

fun getProp :: "json \<Rightarrow> string \<Rightarrow> json" where
  "getProp (JObj kvs) k = (case map_of kvs k of Some v \<Rightarrow> v | None \<Rightarrow> JUndefined)"
| "getProp (JArr xs) k =
     (if k = ''length'' then JNum (int (length xs))
      else (case indexOfKey (length xs) k of Some i \<Rightarrow> xs ! i | None \<Rightarrow> JUndefined))"
| "getProp (JStr s) k =
     (if k = ''length'' then JNum (int (length s))
      else (case indexOfKey (length s) k of Some i \<Rightarrow> JStr [s ! i] | None \<Rightarrow> JUndefined))"
| "getProp v k = JUndefined"

fun isNullish :: "json \<Rightarrow> bool" where
  "isNullish JUndefined = True"
| "isNullish JNull = True"
| "isNullish v = False"

definition getPropE :: "json \<Rightarrow> string \<Rightarrow> error + json" where
  "getPropE v k = (if isNullish v then Inl TypeError else Inr (getProp v k))"

text \<open>\<open>Object.keys(v)\<close> and \<open>k in v\<close>; the spread \<open>{...v}\<close>; the write \<open>o[k] = x\<close>.\<close>

fun objectKeys :: "json \<Rightarrow> string list" where
  "objectKeys (JObj kvs) = map fst kvs"
| "objectKeys (JArr xs) = map digitsOf [0 ..< length xs]"
| "objectKeys (JStr s) = map digitsOf [0 ..< length s]"
| "objectKeys v = []"

definition objectKeysE :: "json \<Rightarrow> error + string list" where
  "objectKeysE v = (if isNullish v then Inl TypeError else Inr (objectKeys v))"

fun spread :: "json \<Rightarrow> (string \<times> json) list" where
  "spread (JObj kvs) = kvs"
| "spread (JArr xs) = zip (map digitsOf [0 ..< length xs]) xs"
| "spread (JStr s) = zip (map digitsOf [0 ..< length s]) (map (\<lambda>c. JStr [c]) s)"
| "spread v = []"

fun setProp :: "(string \<times> json) list \<Rightarrow> string \<Rightarrow> json \<Rightarrow> (string \<times> json) list" where
  "setProp [] k x = [(k, x)]"
| "setProp ((k', v) # kvs) k x = (if k' = k then (k, x) # kvs else (k', v) # setProp kvs k x)"

definition assign :: "(string \<times> json) list \<Rightarrow> (string \<times> json) list \<Rightarrow> (string \<times> json) list" where
  "assign base extra = foldl (\<lambda>acc (k, x). setProp acc k x) base extra"

text \<open>Sequencing of computations that may raise.\<close>

fun mapE :: "('a \<Rightarrow> error + 'b) \<Rightarrow> 'a list \<Rightarrow> error + 'b list" where
  "mapE f [] = Inr []"
| "mapE f (x # xs) =
     (case f x of
        Inl e \<Rightarrow> Inl e
      | Inr y \<Rightarrow> (case mapE f xs of Inl e \<Rightarrow> Inl e | Inr ys \<Rightarrow> Inr (y # ys)))"

section \<open>Host services\<close>

text \<open>
  Libraries the program imports and the repository does not hold are parameters of the
  model: the reserved-word table behind \<open>ReservedDict.check\<close> (called with a string, or
  with whatever value stands where a tag is expected), lodash's \<open>camelCase\<close>, the
  transliteration \<open>pinyin.convertToPinyin\<close>, and the host's collation
  \<open>a.localeCompare(b) <= 0\<close>. The host also bounds the depth of nested calls: reference
  resolution has no cycle guard, and a chain of references deeper than the call stack
  ends the run with the host's stack error. The two tables that the generator keeps in
  a plain object \<open>{}\<close> inherit the members of the host's \<open>Object.prototype\<close>:
  \<open>inheritedMember name\<close> is the text that the host prints for the member inherited under
  that name (\<open>function toString() { [native code] }\<close> for \<open>toString\<close>, \<open>[object Object]\<close> for
  \<open>__proto__\<close>), and \<open>None\<close> for a name that a plain object does not inherit.
\<close>

record host =
  reservedCheck :: "json \<Rightarrow> bool"
  camelCase :: "string \<Rightarrow> string"
  convertToPinyin :: "string \<Rightarrow> string"
  localeLe :: "string \<Rightarrow> string \<Rightarrow> bool"
  stackDepth :: nat
  inheritedMember :: "string \<Rightarrow> string option"

section \<open>NameResolver\<close>

text \<open>
  The first match of \<open>/\[\[.+\]\]/\<close> in a string: the leftmost \<open>[[\<close> that is followed,
  on the same line, by at least one character and then \<open>]]\<close>; the match runs to the last
  such \<open>]]\<close> of the line (\<open>.+\<close> is greedy and stops at a line terminator).
\<close>

definition longestClosed :: "string \<Rightarrow> string option" where
  "longestClosed r =
     (case find (\<lambda>n. 3 \<le> n \<and> take 2 (drop (n - 2) r) = '']]'') (rev [0 ..< Suc (length r)]) of
        None \<Rightarrow> None
      | Some n \<Rightarrow> Some (take n r))"

fun genericMatch :: "string \<Rightarrow> string option" where
  "genericMatch [] = None"
| "genericMatch (c # s) =
     (if startsWith (c # s) ''[[''
      then (case longestClosed (takeWhile (\<lambda>x. \<not> isLineTerminator x) (drop 1 s)) of
              Some m \<Rightarrow> Some (''[['' @ m)
            | None \<Rightarrow> genericMatch s)
      else genericMatch s)"

lemma longestClosed_len:
  assumes "longestClosed r = Some m"
  shows "3 \<le> length m \<and> (\<exists>n. m = take n r)"
proof -
  let ?P = "\<lambda>n. 3 \<le> n \<and> take 2 (drop (n - 2) r) = '']]''"
  from assms obtain n where f: "find ?P (rev [0 ..< Suc (length r)]) = Some n" and m: "m = take n r"
    unfolding longestClosed_def by (auto split: option.splits)
  from f have "?P n" and "n \<in> set (rev [0 ..< Suc (length r)])"
    unfolding find_Some_iff by (blast, metis nth_mem)
  then have "3 \<le> n" and "n \<le> length r" by auto
  with m show ?thesis by auto
qed

lemma startsWith_iff_take: "startsWith s p \<longleftrightarrow> take (length p) s = p"
  by (induction s p rule: startsWith.induct) auto

lemma startsWith_append: "startsWith (p @ v) p"
  by (simp add: startsWith_iff_take)

lemma startsWith_strIncludes: "startsWith s p \<Longrightarrow> strIncludes s p"
  by (cases s; cases p) auto

lemma strIncludes_append: "strIncludes (u @ p @ v) p"
  by (induction u) (auto intro: startsWith_strIncludes startsWith_append)

lemma genericMatch_infix:
  "genericMatch s = Some m \<Longrightarrow> 5 \<le> length m \<and> (\<exists>u v. s = u @ m @ v)"
proof (induction s)
  case Nil
  then show ?case by simp
next
  case (Cons c s)
  have step: "5 \<le> length m \<and> (\<exists>u v. c # s = u @ m @ v)" if "genericMatch s = Some m"
  proof -
    from Cons.IH [OF that] obtain u v where "5 \<le> length m" "s = u @ m @ v" by blast
    then have "c # s = (c # u) @ m @ v" by simp
    then show ?thesis using \<open>5 \<le> length m\<close> by blast
  qed
  show ?case
  proof (cases "startsWith (c # s) ''[[''")
    case False
    with Cons.prems step show ?thesis by auto
  next
    case True
    then obtain s' where s: "c = CHR ''[''" "s = CHR ''['' # s'"
      by (cases s) auto
    let ?run = "takeWhile (\<lambda>x. \<not> isLineTerminator x) s'"
    show ?thesis
    proof (cases "longestClosed ?run")
      case None
      with Cons.prems True step s show ?thesis by auto
    next
      case (Some r)
      with Cons.prems True s have m: "m = ''[['' @ r" by simp
      from longestClosed_len [OF Some] obtain n where r: "3 \<le> length r" "r = take n ?run"
        by blast
      have "?run @ dropWhile (\<lambda>x. \<not> isLineTerminator x) s' = s'" by simp
      then have "s' = take n ?run @ (drop n ?run @ dropWhile (\<lambda>x. \<not> isLineTerminator x) s')"
        by (metis append_assoc append_take_drop_id)
      then have "c # s = [] @ m @ (drop n ?run @ dropWhile (\<lambda>x. \<not> isLineTerminator x) s')"
        using s m r by simp
      moreover have "5 \<le> length m" using m r by simp
      ultimately show ?thesis by blast
    qed
  qed
qed

lemma replaceFirst_infix_len:
  "p \<noteq> [] \<Longrightarrow> length (replaceFirst (u @ p @ v) p []) < length (u @ p @ v)"
proof (induction u)
  case Nil
  then obtain a w where aw: "p @ v = a # w" by (cases "p @ v") auto
  have "startsWith (a # w) p" using startsWith_append [of p v] aw by simp
  then show ?case using Nil aw by simp
next
  case (Cons a u)
  then show ?case by auto
qed

text \<open>
  \<open>getTypeLastName\<close>: the last \<open>/\<close>- and \<open>.\<close>-separated piece of the part before the
  first comma, with a \<open>PublicKeyToken=\<close> suffix, and the generic syntax \<open>Outer[[Inner]]\<close>
  flattened to \<open>Outer_Inner\<close>.
\<close>

definition nthPiece :: "string list \<Rightarrow> nat \<Rightarrow> string" where
  "nthPiece ws i = (if i < length ws then ws ! i else [])"

function getTypeLastName :: "string \<Rightarrow> string" where
  "getTypeLastName tempTypeName =
     (case genericMatch tempTypeName of
        None \<Rightarrow>
          (let publicKeyToken =
                 replaceFirst (nthPiece (splitStr ''PublicKeyToken='' tempTypeName) 1) ''null'' [];
               firstTempTypeName = nthPiece (splitStr '','' tempTypeName) 0;
               typeLastName0 = lastPiece (splitStr ''.'' (lastPiece (splitStr ''/'' firstTempTypeName)));
               typeLastName = (if endsWith typeLastName0 ''[]''
                               then take (length typeLastName0 - 2) typeLastName0 @ ''Array''
                               else typeLastName0);
               isCsharpSystemType = startsWith firstTempTypeName ''System.''
           in if publicKeyToken = [] \<or> isCsharpSystemType then typeLastName
              else typeLastName @ ''_'' @ publicKeyToken)
      | Some childrenTypeName \<Rightarrow>
          getTypeLastName (replaceFirst tempTypeName childrenTypeName [])
          @ ''_''
          @ getTypeLastName (take (length childrenTypeName - 4) (drop 2 childrenTypeName)))"
  by pat_completeness auto
termination
proof (relation "measure length")
  show "wf (measure length)" by simp
next
  fix tempTypeName childrenTypeName
  assume "genericMatch tempTypeName = Some childrenTypeName"
  from genericMatch_infix [OF this] obtain u v
    where "5 \<le> length childrenTypeName" "tempTypeName = u @ childrenTypeName @ v" by blast
  moreover from this have "childrenTypeName \<noteq> []" by auto
  ultimately show "(replaceFirst tempTypeName childrenTypeName [], tempTypeName) \<in> measure length"
    using replaceFirst_infix_len [of childrenTypeName u v] by simp
next
  fix tempTypeName childrenTypeName
  assume "genericMatch tempTypeName = Some childrenTypeName"
  from genericMatch_infix [OF this] obtain u v
    where "5 \<le> length childrenTypeName" "tempTypeName = u @ childrenTypeName @ v" by blast
  then show "(take (length childrenTypeName - 4) (drop 2 childrenTypeName), tempTypeName)
             \<in> measure length"
    by auto
qed

declare getTypeLastName.simps [simp del]

text \<open>
  \<open>resolveTypeName\<close>. The class \<open>[^\w^\s^\u4e00-\u9fa5]\<close> removes every character that
  is not a word character, not white space and not \<open>^\<close>; the ideograph ranges lie outside
  the code units of the model, so \<open>/[\u3220-\uFA29]/.test(name)\<close> is false on every
  modelled string. The advisory log line of the numeric case is not modelled.
\<close>

definition stripSpecial :: "string \<Rightarrow> string" where
  "stripSpecial s = filter (\<lambda>c. isWord c \<or> isSpace c \<or> c = CHR ''^'') s"

definition allDigits :: "string \<Rightarrow> bool" where
  "allDigits s = (s \<noteq> [] \<and> list_all isDigit s)"

definition hasIdeograph :: "string \<Rightarrow> bool" where
  "hasIdeograph s = False"

definition singleDigit :: "string \<Rightarrow> bool" where
  "singleDigit s = (length s = 1 \<and> list_all isDigit s)"

definition finishTypeName :: "host \<Rightarrow> string \<Rightarrow> string" where
  "finishTypeName h typeLastName =
     (let name = stripSpecial (upperAfter ''-_ '' typeLastName)
      in if name = ''_'' \<or> allDigits name then ''Pinyin_'' @ name
         else if \<not> hasIdeograph name \<and> \<not> singleDigit name then name
         else convertToPinyin h (filter (\<lambda>c. c \<noteq> CHR '' '') name))"

definition resolveTypeName :: "host \<Rightarrow> string \<Rightarrow> string" where
  "resolveTypeName h typeName =
     (if reservedCheck h (JStr typeName) then ''__openAPI__'' @ typeName
      else finishTypeName h (getTypeLastName typeName))"

text \<open>\<open>stripDot\<close> of the utilities, and \<open>resolveFunctionName\<close>.\<close>

definition stripDot :: "string \<Rightarrow> string" where
  "stripDot str = upperAfter ''-_ .'' str"

definition resolveFunctionName :: "host \<Rightarrow> string \<Rightarrow> string \<Rightarrow> string" where
  "resolveFunctionName h functionName methodName =
     (if reservedCheck h (JStr functionName) then functionName @ ''Using'' @ toUpperCase methodName
      else functionName)"

section \<open>Default function names\<close>

text \<open>
  \<open>getBasePrefix\<close>. The first loop files the k-th piece of every split path under
  column k; a path with fewer pieces adds nothing to the later columns. The second
  loop keeps the leading columns that hold one distinct value and stops at the first
  column that holds more. Each kept column is a one-element array, which \<open>join\<close>
  renders as its element.
\<close>

fun pushColumns :: "string list list \<Rightarrow> nat \<Rightarrow> string list \<Rightarrow> string list list" where
  "pushColumns arr key [] = arr"
| "pushColumns arr key (item # rest) =
     pushColumns (if length arr \<le> key then arr @ [[item]] else arr[key := arr ! key @ [item]])
       (Suc key) rest"

definition columnsOf :: "string list list \<Rightarrow> string list list" where
  "columnsOf pathItems = foldl (\<lambda>arr pathItem. pushColumns arr 0 pathItem) [] pathItems"

fun everySingle :: "string list list \<Rightarrow> string list list" where
  "everySingle [] = []"
| "everySingle (item # rest) = (if length item = 1 then item # everySingle rest else [])"

definition getBasePrefix :: "string list \<Rightarrow> string" where
  "getBasePrefix paths =
     joinWith ''/'' (map (joinWith '','') (everySingle (map uniq (columnsOf (map (splitStr ''/'') paths)))))
     @ ''/''"

text \<open>
  \<open>genDefaultFunctionName\<close>. \<open>s.replace(/(-\w)+/g, ...)\<close> replaces each maximal run of
  hyphen-and-word-character pairs by the upper-cased character of its last pair;
  \<open>s.match(/^{.+}$/gim)\<close> holds when some line of \<open>s\<close> is a brace pair around at least
  one character.
\<close>

fun dashRun :: "string \<Rightarrow> (char \<times> string) option" where
  "dashRun (a # b # s) =
     (if a = CHR ''-'' \<and> isWord b
      then (case dashRun s of Some r \<Rightarrow> Some r | None \<Rightarrow> Some (b, s))
      else None)"
| "dashRun s = None"

lemma dashRun_len: "dashRun s = Some (b, r) \<Longrightarrow> length r < length s"
  by (induction s arbitrary: b r rule: dashRun.induct) (auto split: if_splits option.splits)

function upperDashRuns :: "string \<Rightarrow> string" where
  "upperDashRuns [] = []"
| "upperDashRuns (c # s) =
     (case dashRun (c # s) of
        Some (b, r) \<Rightarrow> toUpperChar b # upperDashRuns r
      | None \<Rightarrow> c # upperDashRuns s)"
  by pat_completeness auto
termination
  by (relation "measure length") (auto dest: dashRun_len)

fun splitLines :: "string \<Rightarrow> string list" where
  "splitLines [] = [[]]"
| "splitLines (c # s) =
     (if isLineTerminator c then [] # splitLines s
      else (case splitLines s of w # ws \<Rightarrow> (c # w) # ws | [] \<Rightarrow> [[c]]))"

definition bracedLine :: "string \<Rightarrow> bool" where
  "bracedLine s =
     list_ex (\<lambda>l. 3 \<le> length l \<and> startsWith l ''{'' \<and> endsWith l ''}'') (splitLines s)"

definition segmentName :: "host \<Rightarrow> string \<Rightarrow> string" where
  "segmentName h str =
     (let s0 = resolveTypeName h str;
          s = (if strIncludes s0 ''-'' then upperDashRuns s0 else s0)
      in if bracedLine s then ''By'' @ toUpperFirstLetter (take (length s - 2) (drop 1 s))
         else toUpperFirstLetter s)"

definition genDefaultFunctionName :: "host \<Rightarrow> string \<Rightarrow> string \<Rightarrow> string" where
  "genDefaultFunctionName h path pathBasePrefix =
     concat (map (segmentName h) (splitStr ''/'' (replaceFirst path pathBasePrefix [])))"

section \<open>Configuration\<close>

text \<open>
  An entry of the tag table: \<open>{ path, method, ...operationObject }\<close>. An operation object
  has no \<open>path\<close> or \<open>method\<close> member of its own, so the two fields are those of the
  traversal. The configuration holds the members of \<open>GenerateServiceProps\<close> that the
  generator reads; an absent hook is \<open>None\<close>.
\<close>

record api =
  api_path :: string
  api_method :: string
  api_op :: json

datatype apiPrefixT =
    PrefixString string
  | PrefixFunction "string \<Rightarrow> string \<Rightarrow> string \<Rightarrow> string \<Rightarrow> string"

datatype enumStyleT =
    StyleEnum
  | StyleStringLiteral

record config =
  namespace :: "string option"
  isCamelCase :: bool
  apiPrefix :: "apiPrefixT option"
  dataFields :: "string list option"
  enumStyle :: "enumStyleT option"
  customFunctionName :: "(api \<Rightarrow> string) option"
  customTypeName :: "(api \<Rightarrow> string) option"
  customType :: "(json \<Rightarrow> string option \<Rightarrow> json) option"
  customFileNames :: "(json \<Rightarrow> string \<Rightarrow> string \<Rightarrow> string list option) option"
  customClassName :: "(string \<Rightarrow> string) option"
  customOptionsDefaultValue :: "(api \<Rightarrow> json) option"

text \<open>\<open>getFuncationName\<close>: the hook, else the operation id, else the default name.\<close>

definition getFuncationName :: "host \<Rightarrow> config \<Rightarrow> json \<Rightarrow> api \<Rightarrow> error + string" where
  "getFuncationName h cfg openAPIData data =
     (case objectKeysE (getProp openAPIData ''paths'') of
        Inl e \<Rightarrow> Inl e
      | Inr paths \<Rightarrow>
          (let pathBasePrefix = getBasePrefix paths
           in case customFunctionName cfg of
                Some hook \<Rightarrow> Inr (hook data)
              | None \<Rightarrow>
                  (let operationId = getProp (api_op data) ''operationId''
                   in if truthy operationId
                      then (case operationId of
                              JStr s \<Rightarrow> Inr (resolveFunctionName h (stripDot s) (api_method data))
                            | _ \<Rightarrow> Inl TypeError)
                      else Inr (api_method data
                                @ genDefaultFunctionName h (api_path data) pathBasePrefix))))"

section \<open>TypeExpressionSynthesizer\<close>

text \<open>
  \<open>String(v)\<close>, as a template literal and \<open>join\<close> render a value. \<open>join\<close> renders
  \<open>undefined\<close> and \<open>null\<close> members of an array as the empty string.
\<close>

function toStr :: "json \<Rightarrow> string" where
  "toStr JUndefined = ''undefined''"
| "toStr JNull = ''null''"
| "toStr (JBool b) = (if b then ''true'' else ''false'')"
| "toStr (JNum n) = (if n < 0 then ''-'' @ digitsOf (nat (- n)) else digitsOf (nat n))"
| "toStr (JStr s) = s"
| "toStr (JArr xs) = joinWith '','' (map (\<lambda>x. if isNullish x then [] else toStr x) xs)"
| "toStr (JObj kvs) = ''[object Object]''"
  by pat_completeness auto
termination
  by (relation "measure size") (auto simp: less_Suc_eq_le size_list_estimation')

fun isObject :: "json \<Rightarrow> bool" where
  "isObject (JArr xs) = True"
| "isObject (JObj kvs) = True"
| "isObject v = False"

lemma size_map_of:
  "map_of kvs k = Some v \<Longrightarrow> size (v::json) < Suc (size_list (size_prod (\<lambda>_. 0) size) kvs)"
  by (induction kvs) (auto split: if_splits)

lemma size_getProp_le: "size (getProp v k) \<le> size v"
proof (cases v)
  case (JArr xs)
  show ?thesis
  proof (cases "indexOfKey (length xs) k")
    case None
    with JArr show ?thesis by simp
  next
    case (Some i)
    then have "i < length xs"
      unfolding indexOfKey_def find_Some_iff by (metis atLeastLessThan_iff nth_mem set_upt)
    then have "size (xs ! i) \<le> size_list size xs"
      using size_list_estimation' [of "xs ! i" xs "size (xs ! i)" size] by simp
    with JArr Some show ?thesis by simp
  qed
next
  case (JObj kvs)
  then show ?thesis
    using size_map_of [of kvs k] by (auto split: option.splits simp: less_imp_le)
qed (auto split: option.splits)

lemma size_getProp_less: "isObject v \<Longrightarrow> size (getProp v k) < size v"
proof (cases v)
  case (JArr xs)
  show ?thesis
  proof (cases "indexOfKey (length xs) k")
    case None
    with JArr show ?thesis by simp
  next
    case (Some i)
    then have "i < length xs"
      unfolding indexOfKey_def find_Some_iff by (metis atLeastLessThan_iff nth_mem set_upt)
    then have "size (xs ! i) \<le> size_list size xs"
      using size_list_estimation' [of "xs ! i" xs "size (xs ! i)" size] by simp
    with JArr Some show ?thesis by simp
  qed
next
  case (JObj kvs)
  then show ?thesis
    using size_map_of [of kvs k] by (auto split: option.splits)
qed auto

lemma mapE_cong [fundef_cong]:
  "xs = ys \<Longrightarrow> (\<And>x. x \<in> set ys \<Longrightarrow> f x = g x) \<Longrightarrow> mapE f xs = mapE g ys"
  by (induction ys arbitrary: xs) (auto split: sum.splits)

text \<open>The three type families, and \<open>list.includes(v)\<close> on a list of strings.\<close>

definition numberEnum :: "string list" where
  "numberEnum = [''integer'', ''long'', ''float'', ''double'', ''number'', ''int'', ''float'',
                 ''double'', ''int32'', ''int64'']"

definition dateEnum :: "string list" where
  "dateEnum = [''Date'', ''date'', ''dateTime'', ''date-time'', ''datetime'']"

definition stringEnum :: "string list" where
  "stringEnum = [''string'', ''email'', ''password'', ''url'', ''byte'', ''binary'']"

definition inStrings :: "json \<Rightarrow> string list \<Rightarrow> bool" where
  "inStrings v xs = (case v of JStr s \<Rightarrow> s \<in> set xs | _ \<Rightarrow> False)"

text \<open>
  \<open>getRefName\<close> on an object with a truthy \<open>$ref\<close>: the name-resolved last piece of the
  reference. A \<open>$ref\<close> that is not a string has no \<open>split\<close>.
\<close>

definition getRefName :: "host \<Rightarrow> json \<Rightarrow> error + string" where
  "getRefName h refObject =
     (case getProp refObject ''$ref'' of
        JStr r \<Rightarrow> Inr (resolveTypeName h (lastPiece (splitStr ''/'' r)))
      | _ \<Rightarrow> Inl TypeError)"

text \<open>
  The type after the two overrides: a numeric \<open>format\<close> makes it \<open>number\<close>, a truthy
  \<open>enum\<close> makes it \<open>enum\<close>.
\<close>

definition effectiveType :: "json \<Rightarrow> json" where
  "effectiveType schemaObject =
     (if truthy (getProp schemaObject ''enum'') then JStr ''enum''
      else if inStrings (getProp schemaObject ''format'') numberEnum then JStr ''number''
      else getProp schemaObject ''type'')"

text \<open>
  The three required signals of a property of an inline object type. The third one
  applies \<open>in\<close> to the property node, which raises when the node is a truthy scalar.
\<close>

definition requiredByBoolean :: "json \<Rightarrow> bool" where
  "requiredByBoolean schemaObject =
     (case getProp schemaObject ''required'' of JBool b \<Rightarrow> b | _ \<Rightarrow> False)"

definition requiredByArray :: "json \<Rightarrow> string \<Rightarrow> bool" where
  "requiredByArray schemaObject key =
     (case getProp schemaObject ''required'' of JArr ks \<Rightarrow> JStr key \<in> set ks | _ \<Rightarrow> False)"

definition requiredByFlag :: "json \<Rightarrow> string \<Rightarrow> error + bool" where
  "requiredByFlag schemaObject key =
     (let node = getProp (getProp schemaObject ''properties'') key
      in if \<not> truthy node then Inr False
         else (case node of
                 JObj kvs \<Rightarrow> Inr (''required'' \<in> set (map fst kvs) \<and> truthy (getProp node ''required''))
               | JArr xs \<Rightarrow> Inr False
               | _ \<Rightarrow> Inl TypeError))"

definition propertyRequired :: "json \<Rightarrow> string \<Rightarrow> error + bool" where
  "propertyRequired schemaObject key =
     (case requiredByFlag schemaObject key of
        Inl e \<Rightarrow> Inl e
      | Inr flag \<Rightarrow> Inr (requiredByBoolean schemaObject \<or> requiredByArray schemaObject key \<or> flag))"

definition renderProperty :: "string \<Rightarrow> bool \<Rightarrow> json \<Rightarrow> string" where
  "renderProperty key required t =
     [CHR 0x27] @ key @ [CHR 0x27] @ (if required then [] else ''?'') @ '': '' @ toStr t @ ''; ''"

definition hasMembers :: "json \<Rightarrow> bool" where
  "hasMembers v = (truthy v \<and> truthy (getProp v ''length''))"

text \<open>\<open>defaultGetType\<close>. The result is a string, or the scalar itself when the node is one.\<close>

function defaultGetType :: "host \<Rightarrow> json \<Rightarrow> string \<Rightarrow> error + json" where
  "defaultGetType h schemaObject ns =
     (if isNullish schemaObject then Inr (JStr ''any'')
      else if \<not> isObject schemaObject then Inr schemaObject
      else if truthy (getProp schemaObject ''$ref'')
      then (case getRefName h schemaObject of
              Inl e \<Rightarrow> Inl e
            | Inr name \<Rightarrow> Inr (JStr (joinWith ''.'' (filter (\<lambda>s. s \<noteq> []) [ns, name]))))
      else if getProp schemaObject ''type'' = JStr ''null'' then Inr (JStr ''null'')
      else if inStrings (effectiveType schemaObject) numberEnum then Inr (JStr ''number'')
      else if inStrings (effectiveType schemaObject) dateEnum then Inr (JStr ''Date'')
      else if inStrings (effectiveType schemaObject) stringEnum then Inr (JStr ''string'')
      else if effectiveType schemaObject = JStr ''boolean'' then Inr (JStr ''boolean'')
      else if effectiveType schemaObject = JStr ''array''
      then (case (if truthy (getProp schemaObject ''schema'')
                  then getProp (getProp schemaObject ''schema'') ''items''
                  else getProp schemaObject ''items'') of
              JArr items \<Rightarrow>
                (case mapE (\<lambda>subType.
                        if isNullish subType then Inl TypeError
                        else defaultGetType h
                               (if truthy (getProp subType ''schema'')
                                then getProp subType ''schema'' else subType) ns) items of
                   Inl e \<Rightarrow> Inl e
                 | Inr ts \<Rightarrow> Inr (JStr (''['' @ toStr (JArr ts) @ '']'')))
            | items \<Rightarrow>
                (case defaultGetType h items ns of
                   Inl e \<Rightarrow> Inl e
                 | Inr (JStr arrayType) \<Rightarrow>
                     Inr (JStr (if strIncludes arrayType '' | '' then ''('' @ arrayType @ '')[]''
                                else arrayType @ ''[]''))
                 | Inr _ \<Rightarrow> Inl TypeError))
      else if effectiveType schemaObject = JStr ''enum''
      then (case getProp schemaObject ''enum'' of
              JArr vs \<Rightarrow>
                (case mapE (\<lambda>v. case v of
                                   JStr s \<Rightarrow> Inr (JStr ([CHR 0x22] @ s @ [CHR 0x22]))
                                 | _ \<Rightarrow> defaultGetType h v []) vs of
                   Inl e \<Rightarrow> Inl e
                 | Inr ts \<Rightarrow> Inr (JStr (joinWith '' | '' (map toStr (uniq ts)))))
            | _ \<Rightarrow> Inr (JStr ''string''))
      else if hasMembers (getProp schemaObject ''oneOf'')
      then (case getProp schemaObject ''oneOf'' of
              JArr members \<Rightarrow>
                (case mapE (\<lambda>item. defaultGetType h item ns) members of
                   Inl e \<Rightarrow> Inl e
                 | Inr ts \<Rightarrow> Inr (JStr (joinWith '' | '' (map toStr ts))))
            | _ \<Rightarrow> Inl TypeError)
      else if hasMembers (getProp schemaObject ''anyOf'')
      then (case getProp schemaObject ''anyOf'' of
              JArr members \<Rightarrow>
                (case mapE (\<lambda>item. defaultGetType h item ns) members of
                   Inl e \<Rightarrow> Inl e
                 | Inr ts \<Rightarrow> Inr (JStr (joinWith '' | '' (map toStr ts))))
            | _ \<Rightarrow> Inl TypeError)
      else if hasMembers (getProp schemaObject ''allOf'')
      then (case getProp schemaObject ''allOf'' of
              JArr members \<Rightarrow>
                (case mapE (\<lambda>item. defaultGetType h item ns) members of
                   Inl e \<Rightarrow> Inl e
                 | Inr ts \<Rightarrow> Inr (JStr (''('' @ joinWith '' & '' (map toStr ts) @ '')'')))
            | _ \<Rightarrow> Inl TypeError)
      else if getProp schemaObject ''type'' = JStr ''object'' \<or> truthy (getProp schemaObject ''properties'')
      then (if \<not> truthy (getProp schemaObject ''properties'')
               \<or> objectKeys (getProp schemaObject ''properties'') = []
            then Inr (JStr ''Record<string, any>'')
            else (case mapE (\<lambda>key.
                         case propertyRequired schemaObject key of
                           Inl e \<Rightarrow> Inl e
                         | Inr required \<Rightarrow>
                             (case defaultGetType h (getProp (getProp schemaObject ''properties'') key) ns of
                                Inl e \<Rightarrow> Inl e
                              | Inr t \<Rightarrow> Inr (renderProperty key required t)))
                       (objectKeys (getProp schemaObject ''properties'')) of
                    Inl e \<Rightarrow> Inl e
                  | Inr rendered \<Rightarrow> Inr (JStr (''{ '' @ concat rendered @ ''}''))))
      else Inr (JStr ''any''))"
  by pat_completeness auto
lemma size_member: "x \<in> set xs \<Longrightarrow> size (x::json) < Suc (size_list size xs)"
  using size_list_estimation' [of x xs "size x" size] by simp

lemma size_step1: "getProp s k = v \<Longrightarrow> isObject s \<Longrightarrow> size v < size s"
  using size_getProp_less [of s k] by simp

lemma size_step2: "getProp (getProp s k) k' = v \<Longrightarrow> isObject s \<Longrightarrow> size v < size s"
  using size_getProp_le [of "getProp s k" k'] size_getProp_less [of s k] by simp

lemma size_getProp_trans: "size v < n \<Longrightarrow> size (getProp v k) < n"
  using size_getProp_le [of v k] by simp

lemma size_getProp2_less: "isObject v \<Longrightarrow> size (getProp (getProp v k) k') < size v"
  using size_getProp_le [of "getProp v k" k'] size_getProp_less [of v k] by simp

lemma size_member_prop:
  "x \<in> set xs \<Longrightarrow> Suc (size_list size xs) < n \<Longrightarrow> size (getProp x k) < n"
  using size_member [of x xs] size_getProp_le [of x k] by simp

termination defaultGetType
  apply (relation "measure (\<lambda>(h, v, ns). size v)")
  apply simp
  apply (auto split: if_splits dest!: size_step1 size_step2 dest: size_member
         intro: size_member_prop simp: size_getProp_less size_getProp2_less)
  done

declare defaultGetType.simps [simp del]

text \<open>
  \<open>getType\<close>: the type hook first, whose result counts only when it is a string; the
  default parameter of \<open>defaultGetType\<close> reads an absent namespace as the empty string.
\<close>

definition getType :: "host \<Rightarrow> config \<Rightarrow> json \<Rightarrow> string option \<Rightarrow> error + json" where
  "getType h cfg schemaObject ns =
     (let dflt = defaultGetType h schemaObject (case ns of None \<Rightarrow> [] | Some n \<Rightarrow> n)
      in case customType cfg of
           None \<Rightarrow> dflt
         | Some hookFunc \<Rightarrow>
             (case hookFunc schemaObject ns of JStr t \<Rightarrow> Inr (JStr t) | _ \<Rightarrow> dflt))"

section \<open>SchemaResolver\<close>

text \<open>
  \<open>resolveRefObject\<close>. The segments after \<open>#\<close> are followed from the document root
  by member reads; a read on \<open>undefined\<close> or \<open>null\<close> raises. A falsy end value raises
  the data error. Otherwise the result is a copy of the resolved end value whose
  \<open>type\<close> member is overwritten: with the end value itself when that has no \<open>$ref\<close>,
  with the \<open>type\<close> of its resolution when it has one. The first argument bounds the
  depth of the nested calls.
\<close>

fun walkRef :: "json \<Rightarrow> string list \<Rightarrow> error + json" where
  "walkRef obj [] = Inr obj"
| "walkRef obj (node # rest) =
     (if isNullish obj then Inl TypeError else walkRef (getProp obj node) rest)"

definition notFoundMessage :: "string \<Rightarrow> string" where
  "notFoundMessage r = ''[GenSDK] Data Error! Notfoud: '' @ r"

fun resolveRefDepth :: "nat \<Rightarrow> json \<Rightarrow> json \<Rightarrow> error + json" where
  "resolveRefDepth 0 openAPIData refObject = Inl StackExhausted"
| "resolveRefDepth (Suc d) openAPIData refObject =
     (if \<not> truthy refObject \<or> \<not> truthy (getProp refObject ''$ref'') then Inr refObject
      else (case getProp refObject ''$ref'' of
              JStr r \<Rightarrow>
                (case splitStr ''/'' r of
                   first # refPaths \<Rightarrow>
                     (if first = ''#''
                      then (case walkRef openAPIData refPaths of
                              Inl e \<Rightarrow> Inl e
                            | Inr obj \<Rightarrow>
                                (if \<not> truthy obj then Inl (DataError (notFoundMessage r))
                                 else (case resolveRefDepth d openAPIData obj of
                                         Inl e \<Rightarrow> Inl e
                                       | Inr resolved \<Rightarrow>
                                           Inr (JObj (setProp (spread resolved) ''type''
                                                  (if truthy (getProp obj ''$ref'')
                                                   then getProp resolved ''type''
                                                   else obj))))))
                      else Inr refObject)
                 | [] \<Rightarrow> Inl TypeError)
            | _ \<Rightarrow> Inl TypeError))"

definition resolveRefObject :: "host \<Rightarrow> json \<Rightarrow> json \<Rightarrow> error + json" where
  "resolveRefObject h openAPIData refObject = resolveRefDepth (stackDepth h) openAPIData refObject"

text \<open>
  \<open>getProps\<close>: one entry per property, a copy of the property schema with \<open>name\<close>,
  \<open>type\<close>, \<open>desc\<close> and \<open>required\<close> set. \<open>requiredPropKeys.some\<close> exists only on an array.
\<close>

definition DEFAULT_SCHEMA :: json where
  "DEFAULT_SCHEMA =
     JObj [(''type'', JStr ''object''),
           (''properties'', JObj [(''id'', JObj [(''type'', JStr ''number'')])])]"

definition getProp1 :: "host \<Rightarrow> config \<Rightarrow> json \<Rightarrow> string \<Rightarrow> error + json" where
  "getProp1 h cfg schemaObject propName0 =
     (let node = getProp (getProp schemaObject ''properties'') propName0;
          schema = (if truthy node then node else DEFAULT_SCHEMA);
          propName = filter (\<lambda>c. c \<notin> set ''[|]'') propName0;
          requiredPropKeys = getProp schemaObject ''required''
      in case getType h cfg schema None of
           Inl e \<Rightarrow> Inl e
         | Inr t \<Rightarrow>
             (case (if \<not> truthy requiredPropKeys then Inr False
                    else (case requiredPropKeys of
                            JArr ks \<Rightarrow> Inr (JStr propName \<in> set ks)
                          | _ \<Rightarrow> Inl TypeError)) of
                Inl e \<Rightarrow> Inl e
              | Inr required \<Rightarrow>
                  Inr (JObj (assign (spread schema)
                         [(''name'', JStr propName),
                          (''type'', t),
                          (''desc'', JStr (joinWith '' ''
                              (map toStr (filter truthy
                                 [getProp schema ''title'', getProp schema ''description''])))),
                          (''required'', JBool required)]))))"

definition getProps :: "host \<Rightarrow> config \<Rightarrow> json \<Rightarrow> error + json list" where
  "getProps h cfg schemaObject =
     (if isNullish schemaObject then Inl TypeError
      else if truthy (getProp schemaObject ''properties'')
      then mapE (getProp1 h cfg schemaObject) (objectKeys (getProp schemaObject ''properties''))
      else Inr [])"

text \<open>The resolution strategies, and the dispatch of \<open>resolveObject\<close> in its order.\<close>

definition resolveArray :: "json \<Rightarrow> error + json" where
  "resolveArray schemaObject =
     (let r = getProp (getProp schemaObject ''items'') ''$ref''
      in if truthy r
         then (case r of
                 JStr s \<Rightarrow> Inr (JObj [(''type'', JStr (lastPiece (splitStr ''/'' s) @ ''[]''))])
               | _ \<Rightarrow> Inl TypeError)
         else Inr (JStr ''any[]''))"

definition resolveProperties :: "host \<Rightarrow> config \<Rightarrow> json \<Rightarrow> error + json" where
  "resolveProperties h cfg schemaObject =
     (case getProps h cfg schemaObject of
        Inl e \<Rightarrow> Inl e
      | Inr ps \<Rightarrow> Inr (JObj [(''props'', JArr [JArr ps])]))"

definition resolveEnumObject :: "host \<Rightarrow> config \<Rightarrow> json \<Rightarrow> error + json" where
  "resolveEnumObject h cfg schemaObject =
     (let enumArray = getProp schemaObject ''enum'';
          members = (case enumArray of JArr vs \<Rightarrow> Some vs | _ \<Rightarrow> None);
          done = (\<lambda>enumStr. Inr (JObj [(''isEnum'', JBool (enumStyle cfg = Some StyleEnum)),
                                       (''type'', (case members of
                                                     Some _ \<Rightarrow> enumStr
                                                   | None \<Rightarrow> JStr ''string''))]))
      in case enumStyle cfg of
           None \<Rightarrow> done JUndefined
         | Some StyleEnum \<Rightarrow>
             (case members of
                None \<Rightarrow> Inl TypeError
              | Some vs \<Rightarrow>
                  done (JStr (''{'' @ joinWith '',''
                                 (map (\<lambda>v. toStr v @ ''='' @ [CHR 0x22] @ toStr v @ [CHR 0x22]) vs)
                               @ ''}'')))
         | Some StyleStringLiteral \<Rightarrow>
             (case members of
                None \<Rightarrow> Inl TypeError
              | Some vs \<Rightarrow>
                  (case mapE (\<lambda>v. case v of
                                     JStr s \<Rightarrow> Inr (JStr ([CHR 0x22] @ s @ [CHR 0x22]))
                                   | _ \<Rightarrow> getType h cfg v None) vs of
                     Inl e \<Rightarrow> Inl e
                   | Inr ts \<Rightarrow> done (JStr (joinWith '' | '' (map toStr (uniq ts)))))))"

definition allOfGroup :: "host \<Rightarrow> config \<Rightarrow> json \<Rightarrow> error + json" where
  "allOfGroup h cfg item =
     (if isNullish item then Inl TypeError
      else if truthy (getProp item ''$ref'')
      then (case getType h cfg item None of
              Inl e \<Rightarrow> Inl e
            | Inr (JStr t) \<Rightarrow>
                Inr (JArr [JObj (setProp (spread item) ''type'' (JStr (lastPiece (splitStr ''/'' t))))])
            | Inr _ \<Rightarrow> Inl TypeError)
      else (case getProps h cfg item of Inl e \<Rightarrow> Inl e | Inr ps \<Rightarrow> Inr (JArr ps)))"

definition resolveAllOfObject :: "host \<Rightarrow> config \<Rightarrow> json \<Rightarrow> error + json" where
  "resolveAllOfObject h cfg schemaObject =
     (let allOf = getProp schemaObject ''allOf''
      in case (if truthy allOf
               then (case allOf of JArr items \<Rightarrow> mapE (allOfGroup h cfg) items | _ \<Rightarrow> Inl TypeError)
               else Inr []) of
           Inl e \<Rightarrow> Inl e
         | Inr props \<Rightarrow>
             (if truthy (getProp schemaObject ''properties'')
              then (case getProps h cfg schemaObject of
                      Inl e \<Rightarrow> Inl e
                    | Inr extProps \<Rightarrow> Inr (JObj [(''props'', JArr (props @ [JArr extProps]))]))
              else Inr (JObj [(''props'', JArr props)])))"

definition resolveObject :: "host \<Rightarrow> config \<Rightarrow> json \<Rightarrow> json \<Rightarrow> error + json" where
  "resolveObject h cfg openAPIData schemaObject0 =
     (let schemaObject = (if isNullish schemaObject0 then JObj [] else schemaObject0)
      in if truthy (getProp schemaObject ''$ref'') then resolveRefObject h openAPIData schemaObject
         else if truthy (getProp schemaObject ''enum'') then resolveEnumObject h cfg schemaObject
         else if hasMembers (getProp schemaObject ''allOf'') then resolveAllOfObject h cfg schemaObject
         else if truthy (getProp schemaObject ''properties'') then resolveProperties h cfg schemaObject
         else if truthy (getProp schemaObject ''items'') \<and> getProp schemaObject ''type'' = JStr ''array''
         then resolveArray schemaObject
         else Inr schemaObject)"

section \<open>ParameterClassifier\<close>

text \<open>
  The names of the \<open>{name}\<close> tokens of a path, as the loop over \<open>/\{(\w+)\}/g\<close> finds
  them from left to right: an opening brace, one or more word characters, a closing
  brace.
\<close>

function pathTokens :: "string \<Rightarrow> string list" where
  "pathTokens [] = []"
| "pathTokens (c # s) =
     (if c = CHR ''{'' \<and> takeWhile isWord s \<noteq> [] \<and> startsWith (dropWhile isWord s) ''}''
      then takeWhile isWord s # pathTokens (drop 1 (dropWhile isWord s))
      else pathTokens s)"
  by pat_completeness auto
termination
proof (relation "measure length")
  fix c :: char and s :: string
  have "length (dropWhile isWord s) \<le> length s" by (rule length_dropWhile_le)
  then show "(drop 1 (dropWhile isWord s), c # s) \<in> measure length" by simp
qed simp_all

definition DEFAULT_PATH_PARAM :: "(string \<times> json) list" where
  "DEFAULT_PATH_PARAM =
     [(''in'', JStr ''path''), (''name'', JNull), (''schema'', JObj [(''type'', JStr ''string'')]),
      (''required'', JBool True), (''isObject'', JBool False), (''type'', JStr ''string'')]"

text \<open>One parameter that passed the filter \<open>p.in === source\<close>, annotated.\<close>

definition orEmpty :: "json \<Rightarrow> json" where
  "orEmpty v = (if truthy v then v else JObj [])"

definition firstTruthy :: "json list \<Rightarrow> json" where
  "firstTruthy vs = (case filter truthy vs of [] \<Rightarrow> (case rev vs of [] \<Rightarrow> JUndefined | v # _ \<Rightarrow> v) | v # _ \<Rightarrow> v)"

definition annotateParam :: "host \<Rightarrow> config \<Rightarrow> json \<Rightarrow> json \<Rightarrow> error + json" where
  "annotateParam h cfg openAPIData p =
     (let isDirectObject =
            (firstTruthy [getProp (orEmpty (getProp p ''schema'')) ''type'', getProp p ''type'']
             = JStr ''object'');
          refValue = firstTruthy [getProp (orEmpty (getProp p ''schema'')) ''$ref'',
                                  getProp p ''$ref'', JStr []]
      in case refValue of
           JStr r \<Rightarrow>
             (let ref = lastPiece (splitStr ''/'' r);
                  components = getProp openAPIData ''components'';
                  schemas = orEmpty (if truthy components then getProp components ''schemas''
                                     else components);
                  deRefObj = (case map_of (spread schemas) ref of Some v \<Rightarrow> v | None \<Rightarrow> JUndefined);
                  isRefObject = (getProp (orEmpty deRefObj) ''type'' = JStr ''object'')
              in case getType h cfg (if truthy (getProp p ''schema'') then getProp p ''schema''
                                      else DEFAULT_SCHEMA) (namespace cfg) of
                   Inl e \<Rightarrow> Inl e
                 | Inr t \<Rightarrow>
                     Inr (JObj (assign (spread p)
                            [(''isObject'', JBool (isDirectObject \<or> isRefObject)), (''type'', t)])))
         | _ \<Rightarrow> Inl TypeError)"

definition paramsOfSource :: "host \<Rightarrow> config \<Rightarrow> json \<Rightarrow> json list \<Rightarrow> string \<Rightarrow> error + json list" where
  "paramsOfSource h cfg openAPIData parameters source =
     (case mapE (resolveRefObject h openAPIData) parameters of
        Inl e \<Rightarrow> Inl e
      | Inr resolved \<Rightarrow>
          (if list_ex isNullish resolved then Inl TypeError
           else mapE (annotateParam h cfg openAPIData)
                  (filter (\<lambda>p. getProp p ''in'' = JStr source) resolved)))"

fun declaredParams ::
  "host \<Rightarrow> config \<Rightarrow> json \<Rightarrow> json list \<Rightarrow> string list \<Rightarrow> error + (string \<times> json list) list" where
  "declaredParams h cfg openAPIData parameters [] = Inr []"
| "declaredParams h cfg openAPIData parameters (source # sources) =
     (case paramsOfSource h cfg openAPIData parameters source of
        Inl e \<Rightarrow> Inl e
      | Inr ps \<Rightarrow>
          (case declaredParams h cfg openAPIData parameters sources of
             Inl e \<Rightarrow> Inl e
           | Inr rest \<Rightarrow> Inr (if ps = [] then rest else (source, ps) # rest)))"

text \<open>
  The path parameters implied by the tokens of the path: a token whose name no listed
  path parameter has is appended with the default string type.
\<close>

fun addImplied :: "json list \<Rightarrow> string list \<Rightarrow> json list" where
  "addImplied ps [] = ps"
| "addImplied ps (name # names) =
     addImplied (if list_ex (\<lambda>p. getProp p ''name'' = JStr name) ps then ps
                 else ps @ [JObj (setProp DEFAULT_PATH_PARAM ''name'' (JStr name))]) names"

definition lookupParams :: "(string \<times> json list) list \<Rightarrow> string \<Rightarrow> json list" where
  "lookupParams templateParams source =
     (case map_of templateParams source of Some ps \<Rightarrow> ps | None \<Rightarrow> [])"

fun storeParams ::
  "(string \<times> json list) list \<Rightarrow> string \<Rightarrow> json list \<Rightarrow> (string \<times> json list) list" where
  "storeParams [] k ps = [(k, ps)]"
| "storeParams ((k', v) # kvs) k ps =
     (if k' = k then (k, ps) # kvs else (k', v) # storeParams kvs k ps)"

definition getParamsTP ::
  "host \<Rightarrow> config \<Rightarrow> json \<Rightarrow> json \<Rightarrow> string \<Rightarrow> error + (string \<times> json list) list" where
  "getParamsTP h cfg openAPIData parameters0 path =
     (let parameters = (if parameters0 = JUndefined then JArr [] else parameters0)
      in case (if hasMembers parameters
               then (case parameters of
                       JArr ps \<Rightarrow> declaredParams h cfg openAPIData ps [''query'', ''path'', ''cookie'']
                     | _ \<Rightarrow> Inl TypeError)
               else Inr []) of
           Inl e \<Rightarrow> Inl e
         | Inr templateParams \<Rightarrow>
             (if path \<noteq> []
              then (let pathParams = addImplied (lookupParams templateParams ''path'') (pathTokens path)
                    in Inr (if pathParams = []
                            then filter (\<lambda>(k, v). k \<noteq> ''path'') templateParams
                            else storeParams templateParams ''path'' pathParams))
              else Inr templateParams))"

text \<open>
  \<open>schema.required?.includes(name)\<close> followed by \<open>?? false\<close>, as the body and the response
  shapes compute the flag of a property: membership in an array, containment in a
  string; any other value that is not \<open>undefined\<close> or \<open>null\<close> has no \<open>includes\<close>.
\<close>

definition listedRequired :: "json \<Rightarrow> string \<Rightarrow> error + bool" where
  "listedRequired schema name =
     (case getProp schema ''required'' of
        JUndefined \<Rightarrow> Inr False
      | JNull \<Rightarrow> Inr False
      | JArr ks \<Rightarrow> Inr (JStr name \<in> set ks)
      | JStr s \<Rightarrow> Inr (strIncludes s name)
      | _ \<Rightarrow> Inl TypeError)"

text \<open>\<open>getBodyTP\<close>. The result is \<open>null\<close> or the object that describes the body.\<close>

definition binaryFormat :: "json \<Rightarrow> bool" where
  "binaryFormat v = inStrings (if truthy v then v else JStr []) [''binary'', ''base64'']"

definition bodyProperty :: "host \<Rightarrow> config \<Rightarrow> json \<Rightarrow> string \<Rightarrow> error + json" where
  "bodyProperty h cfg schema p =
     (let node = getProp (getProp schema ''properties'') p
      in if \<not> truthy node \<or> binaryFormat (getProp node ''format'') then Inr JUndefined
         else (case (if inStrings (if truthy (getProp node ''type'') then getProp node ''type''
                                   else JStr []) [''string[]'', ''array'']
                     then (if isNullish (getProp node ''items'') then Inl TypeError
                           else Inr (binaryFormat (getProp (getProp node ''items'') ''format'')))
                     else Inr False) of
                 Inl e \<Rightarrow> Inl e
               | Inr True \<Rightarrow> Inr JUndefined
               | Inr False \<Rightarrow>
                   (case getType h cfg node (namespace cfg) of
                      Inl e \<Rightarrow> Inl e
                    | Inr t \<Rightarrow>
                        (case listedRequired schema p of
                           Inl e \<Rightarrow> Inl e
                         | Inr required \<Rightarrow>
                             Inr (JObj [(''key'', JStr p),
                                        (''schema'', JObj (assign (spread node)
                                           [(''type'', t), (''required'', JBool required)]))])))))"

definition getBodyTP :: "host \<Rightarrow> config \<Rightarrow> json \<Rightarrow> json \<Rightarrow> error + json" where
  "getBodyTP h cfg openAPIData requestBody0 =
     (let requestBody = (if requestBody0 = JUndefined then JObj [] else requestBody0)
      in case resolveRefObject h openAPIData requestBody of
           Inl e \<Rightarrow> Inl e
         | Inr reqBody \<Rightarrow>
             (if \<not> truthy reqBody then Inr JNull
              else (let reqContent = getProp reqBody ''content''
                    in if \<not> (isObject reqContent \<or> reqContent = JNull) then Inr JNull
                       else if reqContent = JNull then Inl TypeError
                       else (case objectKeys reqContent of
                               [] \<Rightarrow> Inl TypeError
                             | mediaType0 # _ \<Rightarrow>
                                 (if isNullish (getProp reqContent mediaType0) then Inl TypeError
                                  else (let schema0 = getProp (getProp reqContent mediaType0) ''schema'';
                                            schema = (if truthy schema0 then schema0 else DEFAULT_SCHEMA);
                                            mediaType = (if mediaType0 = ''*/*'' then [] else mediaType0);
                                            required = (case getProp requestBody ''required'' of
                                                          JBool b \<Rightarrow> b
                                                        | _ \<Rightarrow> False)
                                        in if getProp schema ''type'' = JStr ''object''
                                              \<and> truthy (getProp schema ''properties'')
                                           then (case mapE (bodyProperty h cfg schema)
                                                        (objectKeys (getProp schema ''properties'')) of
                                                   Inl e \<Rightarrow> Inl e
                                                 | Inr entries \<Rightarrow>
                                                     Inr (JObj (assign
                                                            (assign [(''mediaType'', JStr mediaType)]
                                                               (spread schema))
                                                            [(''required'', JBool required),
                                                             (''propertiesList'',
                                                              JArr (filter truthy entries))])))
                                           else (case getType h cfg schema (namespace cfg) of
                                                   Inl e \<Rightarrow> Inl e
                                                 | Inr t \<Rightarrow>
                                                     Inr (JObj [(''mediaType'', JStr mediaType),
                                                                (''required'', JBool required),
                                                                (''type'', t)]))))))))"

text \<open>
  \<open>resolveFileTP\<close> and \<open>getFileTP\<close>. The recursion follows the \<open>type\<close> member of the
  resolved value; the first argument bounds its depth. The source filters the first
  member of \<open>props\<close> when \<open>props.length > 0\<close>; a first member that is not an array has
  no \<open>filter\<close>. For a \<open>props\<close> object whose \<open>length\<close> is a string or an array the
  comparison converts it to a number; that conversion is not modelled, and the model
  takes the comparison to fail.
\<close>

definition isFileProp :: "json \<Rightarrow> error + bool" where
  "isFileProp p =
     (if isNullish p then Inl TypeError
      else if getProp p ''format'' = JStr ''binary'' \<or> getProp p ''format'' = JStr ''base64''
      then Inr True
      else if getProp p ''type'' = JStr ''string[]'' \<or> getProp p ''type'' = JStr ''array''
      then (if isNullish (getProp p ''items'') then Inl TypeError
            else Inr (getProp (getProp p ''items'') ''format'' = JStr ''binary''
                      \<or> getProp (getProp p ''items'') ''format'' = JStr ''base64''))
      else Inr False)"

fun filterE :: "('a \<Rightarrow> error + bool) \<Rightarrow> 'a list \<Rightarrow> error + 'a list" where
  "filterE f [] = Inr []"
| "filterE f (x # xs) =
     (case f x of
        Inl e \<Rightarrow> Inl e
      | Inr b \<Rightarrow> (case filterE f xs of
                    Inl e \<Rightarrow> Inl e
                  | Inr ys \<Rightarrow> Inr (if b then x # ys else ys)))"

definition fileProps :: "json \<Rightarrow> error + json list" where
  "fileProps resolved =
     (let props = getProp resolved ''props'';
          firstGroup = (\<lambda>first. case first of
                                  JArr ps \<Rightarrow> filterE isFileProp ps
                                | _ \<Rightarrow> Inl TypeError)
      in if \<not> truthy props then Inr []
         else (case props of
                 JArr [] \<Rightarrow> Inr []
               | JArr (first # _) \<Rightarrow> firstGroup first
               | JStr s \<Rightarrow> Inl TypeError
               | JObj kvs \<Rightarrow>
                   (case getProp props ''length'' of
                      JNum n \<Rightarrow> if 0 < n then firstGroup (getProp props ''0'') else Inr []
                    | JBool b \<Rightarrow> if b then firstGroup (getProp props ''0'') else Inr []
                    | _ \<Rightarrow> Inr [])
               | _ \<Rightarrow> Inr []))"

definition fileEntry :: "json \<Rightarrow> json" where
  "fileEntry p =
     JObj [(''title'', getProp p ''name''),
           (''multiple'', JBool (getProp p ''type'' = JStr ''string[]''
                                \<or> getProp p ''type'' = JStr ''array''))]"

fun resolveFileDepth :: "nat \<Rightarrow> host \<Rightarrow> config \<Rightarrow> json \<Rightarrow> json \<Rightarrow> error + json list" where
  "resolveFileDepth 0 h cfg openAPIData obj = Inl StackExhausted"
| "resolveFileDepth (Suc d) h cfg openAPIData obj =
     (case resolveObject h cfg openAPIData obj of
        Inl e \<Rightarrow> Inl e
      | Inr resolved \<Rightarrow>
          (case fileProps resolved of
             Inl e \<Rightarrow> Inl e
           | Inr props \<Rightarrow>
               (if truthy (getProp resolved ''type'')
                then (case resolveFileDepth d h cfg openAPIData (getProp resolved ''type'') of
                        Inl e \<Rightarrow> Inl e
                      | Inr deeper \<Rightarrow> Inr (map fileEntry props @ deeper))
                else Inr (map fileEntry props))))"

definition getFileTP :: "host \<Rightarrow> config \<Rightarrow> json \<Rightarrow> json \<Rightarrow> error + json" where
  "getFileTP h cfg openAPIData requestBody0 =
     (let requestBody = (if requestBody0 = JUndefined then JObj [] else requestBody0)
      in case resolveRefObject h openAPIData requestBody of
           Inl e \<Rightarrow> Inl e
         | Inr reqBody \<Rightarrow>
             (let content = (if truthy reqBody then getProp reqBody ''content'' else reqBody);
                  form = (if truthy content then getProp content ''multipart/form-data'' else content)
              in if \<not> truthy form then Inr JNull
                 else (case resolveFileDepth (stackDepth h) h cfg openAPIData (getProp form ''schema'') of
                         Inl e \<Rightarrow> Inl e
                       | Inr ret \<Rightarrow> Inr (if ret = [] then JNull else JArr ret))))"

fun foldE :: "('s \<Rightarrow> 'a \<Rightarrow> error + 's) \<Rightarrow> 's \<Rightarrow> 'a list \<Rightarrow> error + 's" where
  "foldE f s [] = Inr s"
| "foldE f s (x # xs) = (case f s x of Inl e \<Rightarrow> Inl e | Inr s' \<Rightarrow> foldE f s' xs)"

section \<open>Writes into the document\<close>

text \<open>
  The document comes from parsed JSON, so it is a tree: a node is identified by its
  location, the list of member names that lead to it from the root. \<open>getAt\<close> reads the
  node at a location. \<open>modifyAt\<close> rewrites the node at a location that exists and leaves
  the value unchanged when the location leads nowhere. \<open>writeMember\<close> is the write
  \<open>node[k] = x\<close> on an object; a member with a name on an array is not represented.
\<close>

fun getAt :: "json \<Rightarrow> string list \<Rightarrow> json" where
  "getAt v [] = v"
| "getAt v (k # ks) = getAt (getProp v k) ks"

fun modifyFirst :: "string \<Rightarrow> (json \<Rightarrow> json) \<Rightarrow> (string \<times> json) list \<Rightarrow> (string \<times> json) list" where
  "modifyFirst k g [] = []"
| "modifyFirst k g ((k', x) # kvs) =
     (if k' = k then (k', g x) # kvs else (k', x) # modifyFirst k g kvs)"

definition modifyMember :: "string \<Rightarrow> (json \<Rightarrow> json) \<Rightarrow> json \<Rightarrow> json" where
  "modifyMember k g v =
     (case v of
        JObj kvs \<Rightarrow> JObj (modifyFirst k g kvs)
      | JArr xs \<Rightarrow> (case indexOfKey (length xs) k of
                      Some i \<Rightarrow> JArr (xs[i := g (xs ! i)])
                    | None \<Rightarrow> v)
      | _ \<Rightarrow> v)"

fun modifyAt :: "string list \<Rightarrow> (json \<Rightarrow> json) \<Rightarrow> json \<Rightarrow> json" where
  "modifyAt [] g = g"
| "modifyAt (k # ks) g = modifyMember k (modifyAt ks g)"

definition writeMember :: "string \<Rightarrow> json \<Rightarrow> json \<Rightarrow> json" where
  "writeMember k x node = (case node of JObj kvs \<Rightarrow> JObj (setProp kvs k x) | _ \<Rightarrow> node)"

text \<open>
  The location of the node whose members a resolved reference exposes: the node
  itself, or the end of its chain of internal references.
\<close>

fun targetLoc :: "nat \<Rightarrow> json \<Rightarrow> string list \<Rightarrow> string list" where
  "targetLoc 0 openAPIData loc = loc"
| "targetLoc (Suc d) openAPIData loc =
     (let v = getAt openAPIData loc
      in if \<not> truthy v \<or> \<not> truthy (getProp v ''$ref'') then loc
         else (case getProp v ''$ref'' of
                 JStr r \<Rightarrow>
                   (case splitStr ''/'' r of
                      first # refPaths \<Rightarrow>
                        (if first = ''#'' then targetLoc d openAPIData refPaths else loc)
                    | [] \<Rightarrow> loc)
               | _ \<Rightarrow> loc))"

text \<open>
  \<open>getResponseTP\<close>, for the responses at a location of the document. It returns the
  response shape and the document after its writes: the \<open>required\<close> member of every
  top-level property node of the schema it renders. When that schema is the constant
  \<open>DEFAULT_SCHEMA\<close> the write goes to the constant, outside the document; the model
  keeps the constant as declared, without the flag that the write leaves on its \<open>id\<close>
  property. A write on a property node that is a scalar raises.
\<close>

definition defaultResponse :: json where
  "defaultResponse = JObj [(''mediaType'', JStr ''*/*''), (''type'', JStr ''any'')]"

definition chosenResponse :: "json \<Rightarrow> string" where
  "chosenResponse responses =
     (case filter (\<lambda>k. truthy (getProp responses k)) [''default'', ''200'', ''201''] of
        [] \<Rightarrow> ''201''
      | k # _ \<Rightarrow> k)"

definition unwrapLoc :: "config \<Rightarrow> json \<Rightarrow> json \<Rightarrow> string list option \<Rightarrow> error + (string list option)" where
  "unwrapLoc cfg openAPIData schema sloc =
     (if \<not> truthy (getProp schema ''$ref'') then Inr sloc
      else (case getProp schema ''$ref'' of
              JStr r \<Rightarrow>
                (let refName = lastPiece (splitStr ''/'' r);
                     components = getProp openAPIData ''components''
                 in if isNullish components \<or> isNullish (getProp components ''schemas'')
                    then Inl TypeError
                    else (let childrenSchema = getProp (getProp components ''schemas'') refName
                          in case (childrenSchema, dataFields cfg) of
                               (JObj kvs, Some names) \<Rightarrow>
                                 (if getProp childrenSchema ''type'' = JStr ''object''
                                     \<and> ''properties'' \<in> set (map fst kvs)
                                  then (if names = [] then Inr sloc
                                        else if isNullish (getProp childrenSchema ''properties'')
                                        then Inl TypeError
                                        else (case filter (\<lambda>field. truthy (getProp
                                                       (getProp childrenSchema ''properties'') field))
                                                     names of
                                                [] \<Rightarrow> Inr sloc
                                              | field # _ \<Rightarrow>
                                                  Inr (Some [''components'', ''schemas'', refName,
                                                             ''properties'', field])))
                                  else Inr sloc)
                             | _ \<Rightarrow> Inr sloc))
            | _ \<Rightarrow> Inl TypeError))"

definition flagProperty :: "json \<Rightarrow> string \<Rightarrow> error + json" where
  "flagProperty schema fieldName =
     (case listedRequired schema fieldName of
        Inl e \<Rightarrow> Inl e
      | Inr flag \<Rightarrow>
          (if isObject (getProp (getProp schema ''properties'') fieldName)
           then Inr (modifyAt [''properties'', fieldName] (writeMember ''required'' (JBool flag)) schema)
           else Inl TypeError))"

definition flagProperties :: "json \<Rightarrow> error + json" where
  "flagProperties schema =
     (case schema of
        JObj kvs \<Rightarrow>
          (if ''properties'' \<in> set (map fst kvs)
           then (if isNullish (getProp schema ''properties'') then Inl TypeError
                 else foldE flagProperty schema (objectKeys (getProp schema ''properties'')))
           else Inr schema)
      | JArr xs \<Rightarrow> Inr schema
      | _ \<Rightarrow> Inl TypeError)"

definition getResponseTP ::
  "host \<Rightarrow> config \<Rightarrow> json \<Rightarrow> string list \<Rightarrow> error + (json \<times> json)" where
  "getResponseTP h cfg openAPIData loc =
     (let responses = (if getAt openAPIData loc = JUndefined then JObj [] else getAt openAPIData loc)
      in if \<not> truthy responses then Inr (defaultResponse, openAPIData)
         else
          (case resolveRefObject h openAPIData (getProp responses (chosenResponse responses)) of
             Inl e \<Rightarrow> Inl e
           | Inr response \<Rightarrow>
               (let resContent = getProp response ''content'';
                    mediaTypes = objectKeys (orEmpty resContent);
                    mediaType = (if ''application/json'' \<in> set mediaTypes then ''application/json''
                                 else (case mediaTypes of [] \<Rightarrow> [] | t # _ \<Rightarrow> t))
                in if \<not> truthy response \<or> \<not> (isObject resContent \<or> resContent = JNull)
                      \<or> mediaType = []
                   then Inr (defaultResponse, openAPIData)
                   else if isNullish (getProp resContent mediaType) then Inl TypeError
                   else
                    (let declared = getProp (getProp resContent mediaType) ''schema'';
                         sloc0 = (if truthy declared
                                  then Some (targetLoc (stackDepth h) openAPIData
                                               (loc @ [chosenResponse responses])
                                             @ [''content'', mediaType, ''schema''])
                                  else None)
                     in case unwrapLoc cfg openAPIData
                               (if truthy declared then declared else DEFAULT_SCHEMA) sloc0 of
                          Inl e \<Rightarrow> Inl e
                        | Inr sloc \<Rightarrow>
                            (case flagProperties (case sloc of
                                                    None \<Rightarrow> DEFAULT_SCHEMA
                                                  | Some l \<Rightarrow> getAt openAPIData l) of
                               Inl e \<Rightarrow> Inl e
                             | Inr schema \<Rightarrow>
                                 (case getType h cfg schema (namespace cfg) of
                                    Inl e \<Rightarrow> Inl e
                                  | Inr t \<Rightarrow>
                                      Inr (JObj [(''mediaType'', JStr mediaType), (''type'', t)],
                                           (case sloc of
                                              None \<Rightarrow> openAPIData
                                            | Some l \<Rightarrow> modifyAt l (\<lambda>_. schema) openAPIData))))))))"

section \<open>OperationGrouper: the grouping pass\<close>

text \<open>
  \<open>defaultGetFileTag\<close>, with its three alternatives joined by \<open>||\<close> as the source has
  them. An array is truthy, also the one-element array around an absent operation id.
\<close>

definition defaultGetFileTag :: "json \<Rightarrow> string \<Rightarrow> string \<Rightarrow> json" where
  "defaultGetFileTag operationObject apiPath apiMethod =
     (let router = getProp operationObject ''x-swagger-router-controller''
      in if truthy router then JArr [router]
         else firstTruthy
                [getProp operationObject ''tags'',
                 JArr [getProp operationObject ''operationId''],
                 JArr [(let pieces = splitStr ''/'' (replaceFirst apiPath ''/'' [])
                        in if 1 < length pieces then JStr (pieces ! 1) else JUndefined)]])"

text \<open>
  \<open>resolveTypeName\<close> applied to a tag that need not be a string: the reserved-word check
  sees the value as it is; \<open>typeName || ''\<close> reads a falsy value as the empty string; a
  truthy value that is not a string has no \<open>match\<close>.
\<close>

definition resolveTagName :: "host \<Rightarrow> json \<Rightarrow> error + string" where
  "resolveTagName h tagString =
     (case tagString of
        JStr s \<Rightarrow> Inr (resolveTypeName h s)
      | _ \<Rightarrow>
          (if reservedCheck h tagString then Inr (''__openAPI__'' @ toStr tagString)
           else if truthy tagString then Inl TypeError
           else Inr (finishTypeName h (getTypeLastName []))))"

text \<open>
  The tag table \<open>apiData\<close>: tags in the order of their first use, each with its entries
  in traversal order. The table is a plain object: a tag that is not in it and names a
  member that a plain object inherits reads as that member, which is truthy and has no
  \<open>push\<close>, and the entry raises.
\<close>

fun pushEntry :: "(string \<times> api list) list \<Rightarrow> string \<Rightarrow> api \<Rightarrow> (string \<times> api list) list" where
  "pushEntry [] tag a = [(tag, [a])]"
| "pushEntry ((t, as) # rest) tag a =
     (if t = tag then (t, as @ [a]) # rest else (t, as) # pushEntry rest tag a)"

definition enterTag ::
  "host \<Rightarrow> (string \<times> api list) list \<Rightarrow> string \<Rightarrow> api \<Rightarrow> error + (string \<times> api list) list" where
  "enterTag h apiData tag a =
     (if tag \<notin> set (map fst apiData) \<and> inheritedMember h tag \<noteq> None then Inl TypeError
      else Inr (pushEntry apiData tag a))"

definition tagsOf :: "config \<Rightarrow> json \<Rightarrow> string \<Rightarrow> string \<Rightarrow> json" where
  "tagsOf cfg operationObject p m =
     (case customFileNames cfg of
        None \<Rightarrow> (let tags = defaultGetFileTag operationObject p m
                 in if truthy tags then tags else defaultGetFileTag operationObject p m)
      | Some hook \<Rightarrow>
          (case hook operationObject p m of
             Some tags \<Rightarrow> JArr (map JStr tags)
           | None \<Rightarrow> defaultGetFileTag operationObject p m))"

definition addOperation ::
  "host \<Rightarrow> config \<Rightarrow> string \<Rightarrow> json \<Rightarrow> (string \<times> api list) list \<Rightarrow> string
   \<Rightarrow> error + (string \<times> api list) list" where
  "addOperation h cfg p pathItem apiData m =
     (if isNullish pathItem then Inl TypeError
      else (let operationObject = getProp pathItem m
            in if \<not> truthy operationObject then Inr apiData
               else (case tagsOf cfg operationObject p m of
                       JArr tags \<Rightarrow>
                         foldE (\<lambda>acc tagString.
                                  case resolveTagName h tagString of
                                    Inl e \<Rightarrow> Inl e
                                  | Inr name \<Rightarrow>
                                      enterTag h acc
                                        (if isCamelCase cfg then camelCase h name else name)
                                        \<lparr>api_path = p, api_method = m, api_op = operationObject\<rparr>)
                               apiData tags
                     | _ \<Rightarrow> Inl TypeError)))"

definition httpMethods :: "string list" where
  "httpMethods = [''get'', ''put'', ''post'', ''delete'', ''patch'']"

definition groupOperations :: "host \<Rightarrow> config \<Rightarrow> json \<Rightarrow> error + (string \<times> api list) list" where
  "groupOperations h cfg openAPIData =
     (let paths = orEmpty (getProp openAPIData ''paths'')
      in foldE (\<lambda>acc p. foldE (addOperation h cfg p (getProp paths p)) acc httpMethods)
           [] (objectKeys paths))"

section \<open>OperationGrouper: the synthesis pass\<close>

text \<open>\<open>getTypeName\<close>: the hook unless it returns the empty string, else the function name.\<close>

definition getTypeName :: "host \<Rightarrow> config \<Rightarrow> json \<Rightarrow> api \<Rightarrow> error + string" where
  "getTypeName h cfg openAPIData data =
     (let ns = (case namespace cfg of
                  None \<Rightarrow> []
                | Some n \<Rightarrow> if n = [] then [] else n @ ''.'');
          hooked = (case customTypeName cfg of None \<Rightarrow> [] | Some hook \<Rightarrow> hook data)
      in case (if hooked \<noteq> [] then Inr hooked else getFuncationName h cfg openAPIData data) of
           Inl e \<Rightarrow> Inl e
         | Inr name \<Rightarrow> Inr (resolveTypeName h (ns @ name @ ''Params'')))"

text \<open>
  The rewrite of the path by \<open>/:([^/]*)|{([^}]*)}/gi\<close>: a colon with the characters up to
  the next slash, or a brace pair, becomes \<open>${name}\<close>. A colon followed by nothing that
  it can take leaves the first group empty and the second one undefined, which the
  template prints as \<open>undefined\<close>.
\<close>

function templatePath :: "string \<Rightarrow> string" where
  "templatePath [] = []"
| "templatePath (c # s) =
     (if c = CHR '':''
      then (let str = takeWhile (\<lambda>x. x \<noteq> CHR ''/'') s
            in ''${'' @ (if str = [] then ''undefined'' else str) @ ''}''
               @ templatePath (dropWhile (\<lambda>x. x \<noteq> CHR ''/'') s))
      else if c = CHR ''{'' \<and> CHR ''}'' \<in> set s
      then ''${'' @ takeWhile (\<lambda>x. x \<noteq> CHR ''}'') s @ ''}''
           @ templatePath (drop 1 (dropWhile (\<lambda>x. x \<noteq> CHR ''}'') s))
      else c # templatePath s)"
  by pat_completeness auto
termination
proof (relation "measure length")
  fix c :: char and s :: string
  have "length (dropWhile (\<lambda>x. x \<noteq> CHR ''/'') s) \<le> length s" by (rule length_dropWhile_le)
  then show "(dropWhile (\<lambda>x. x \<noteq> CHR ''/'') s, c # s) \<in> measure length" by simp
  have "length (dropWhile (\<lambda>x. x \<noteq> CHR ''}'') s) \<le> length s" by (rule length_dropWhile_le)
  then show "(drop 1 (dropWhile (\<lambda>x. x \<noteq> CHR ''}'') s), c # s) \<in> measure length" by simp
qed simp_all

text \<open>\<open>s.replace(/\*/g, '&#42;')\<close>.\<close>

definition escapeStars :: "string \<Rightarrow> string" where
  "escapeStars s = concat (map (\<lambda>c. if c = CHR ''*'' then ''&#42;'' else [c]) s)"

text \<open>
  The aliases of the path parameters, and their substitution into the path: one
  \<open>replace\<close> with a string pattern per parameter, in order, on the result of the one
  before.
\<close>

definition addAliases :: "json list \<Rightarrow> json list" where
  "addAliases ps =
     map (\<lambda>(ele, index). JObj (setProp (spread ele) ''alias'' (JStr (''param'' @ digitsOf index))))
       (zip ps [0 ..< length ps])"

definition substituteAliases :: "string \<Rightarrow> json list \<Rightarrow> string" where
  "substituteAliases formattedPath escapedPathParams =
     foldl (\<lambda>fp param. replaceFirst fp (''${'' @ toStr (getProp param ''name'') @ ''}'')
                          (''${'' @ toStr (getProp param ''alias'') @ ''}''))
       formattedPath escapedPathParams"

text \<open>\<open>getPrefixPath\<close>.\<close>

definition injectPrefix :: "string \<Rightarrow> string \<Rightarrow> string" where
  "injectPrefix prefix formattedPath =
     (if prefix = [] then formattedPath
      else if startsWith prefix [CHR 0x27] \<or> startsWith prefix [CHR 0x22]
              \<or> startsWith prefix [CHR 0x60]
      then (let finalPrefix = take (length prefix - 2) (drop 1 prefix)
            in if startsWith formattedPath finalPrefix
                  \<or> startsWith formattedPath (''/'' @ finalPrefix)
               then formattedPath
               else finalPrefix @ formattedPath)
      else ''${'' @ prefix @ ''}'' @ formattedPath)"

definition getPrefixPath :: "config \<Rightarrow> string \<Rightarrow> string \<Rightarrow> string \<Rightarrow> string \<Rightarrow> string" where
  "getPrefixPath cfg formattedPath m tag functionName =
     (case apiPrefix cfg of
        None \<Rightarrow> formattedPath
      | Some (PrefixString s) \<Rightarrow>
          (if s = [] then formattedPath else injectPrefix (trim s) formattedPath)
      | Some (PrefixFunction f) \<Rightarrow>
          injectPrefix (trim (f formattedPath m tag functionName)) formattedPath)"

text \<open>
  The collision counter \<open>tmpFunctionRD\<close> of one tag, a plain object. A name that reads
  truthy in it gets \<open>_\<close> and the value of \<open>tmpFunctionRD[name] += 1\<close> as a suffix; any other
  name is entered with 1; the empty name is left alone. For a number the sum is the next
  number. A name that is not in the table and names a member that a plain object
  inherits reads as that member: the sum is the member's text followed by \<open>1\<close>, which
  is stored in the table and grows by another \<open>1\<close> each time; under \<open>__proto__\<close> the host
  ignores the store of a string.
\<close>

datatype counter =
    Count nat
  | Text string

definition uniqueName ::
  "host \<Rightarrow> (string \<Rightarrow> counter option) \<Rightarrow> string \<Rightarrow> string \<times> (string \<Rightarrow> counter option)" where
  "uniqueName h rd functionName =
     (if functionName = [] then (functionName, rd)
      else (case rd functionName of
              Some (Count n) \<Rightarrow>
                (if n = 0 then (functionName, rd(functionName \<mapsto> Count 1))
                 else (functionName @ ''_'' @ digitsOf (Suc n),
                       rd(functionName \<mapsto> Count (Suc n))))
            | Some (Text s) \<Rightarrow>
                (if s = [] then (functionName, rd(functionName \<mapsto> Count 1))
                 else (functionName @ ''_'' @ s @ ''1'', rd(functionName \<mapsto> Text (s @ ''1''))))
            | None \<Rightarrow>
                (case inheritedMember h functionName of
                   None \<Rightarrow> (functionName, rd(functionName \<mapsto> Count 1))
                 | Some printed \<Rightarrow>
                     (functionName @ ''_'' @ printed @ ''1'',
                      if functionName = ''__proto__'' then rd
                      else rd(functionName \<mapsto> Text (printed @ ''1''))))))"

text \<open>
  The vendor bundle \<open>x-antTech-description\<close>: its path replaces the rewritten one, a
  mapping record is appended, and the version is stored on the entry.
\<close>

definition vendorRewrite :: "api \<Rightarrow> string \<Rightarrow> json list \<Rightarrow> error + (string \<times> json list \<times> api)" where
  "vendorRewrite newApi formattedPath maps =
     (let extensions = getProp (api_op newApi) ''extensions'';
          bundle = (if truthy extensions then getProp extensions ''x-antTech-description''
                    else JUndefined)
      in if \<not> truthy bundle then Inr (formattedPath, maps, newApi)
         else (case (if truthy (getProp bundle ''antTechApiName'')
                     then (case getProp bundle ''antTechApiName'' of
                             JStr s \<Rightarrow> Inr s
                           | _ \<Rightarrow> Inl TypeError)
                     else Inr formattedPath) of
                 Inl e \<Rightarrow> Inl e
               | Inr fp \<Rightarrow>
                   Inr (fp,
                        maps @ [JObj [(''antTechApi'', JStr fp),
                                      (''popAction'', getProp bundle ''apiName''),
                                      (''popProduct'', getProp bundle ''productCode''),
                                      (''antTechVersion'', getProp bundle ''antTechVersion'')]],
                        newApi\<lparr>api_op := JObj (setProp (spread (api_op newApi)) ''antTechVersion''
                                                   (getProp bundle ''antTechVersion''))\<rparr>)))"

text \<open>
  The descriptor of one operation: the entry and the members that the source adds to
  it. The member \<open>file\<close> of the source is \<open>d_file\<close> here, beside \<open>d_api\<close> for the entry.
\<close>

record descriptor =
  d_api :: api
  functionName :: string
  typeName :: string
  path :: string
  pathInComment :: string
  hasPathVariables :: bool
  hasApiPrefix :: bool
  desc :: json
  hasHeader :: bool
  params :: "(string \<times> json list) list"
  hasParams :: bool
  options :: json
  body :: json
  d_file :: json
  hasFormData :: bool
  response :: json

definition markComplex :: "(string \<times> json list) list \<Rightarrow> (string \<times> json list) list" where
  "markComplex finalParams =
     (case map_of finalParams ''query'' of
        None \<Rightarrow> finalParams
      | Some qs \<Rightarrow>
          storeParams finalParams ''query''
            (map (\<lambda>ele. JObj (setProp (spread ele) ''isComplexType'' (getProp ele ''isObject''))) qs))"

text \<open>
  The entries of the tag table share their nodes with the document. The model reads
  the request body and the responses of an entry through the document, at the location
  of the operation, and the other members from the entry as the grouping pass took it.
\<close>

definition operationLoc :: "api \<Rightarrow> string list" where
  "operationLoc a = [''paths'', api_path a, api_method a]"

definition mentionsFormData :: "json \<Rightarrow> error + bool" where
  "mentionsFormData mediaType =
     (case (if truthy mediaType then mediaType else JStr []) of
        JStr s \<Rightarrow> Inr (strIncludes s ''form-data'')
      | JArr xs \<Rightarrow> Inr (JStr ''form-data'' \<in> set xs)
      | _ \<Rightarrow> Inl TypeError)"

definition descOf :: "string \<Rightarrow> api \<Rightarrow> json \<Rightarrow> json" where
  "descOf name newApi responses =
     (if getProp (api_op newApi) ''summary'' = JStr name
      then getProp (api_op newApi) ''description''
      else JStr (joinWith '' '' (map toStr (filter truthy
             [getProp (api_op newApi) ''summary'',
              getProp (api_op newApi) ''description'',
              (if truthy (getProp (getProp responses ''default'') ''description'')
               then JStr (''Return Value: ''
                          @ toStr (getProp (getProp responses ''default'') ''description''))
               else JStr [])]))))"

text \<open>
  One operation of a tag. The state that the source keeps in the generator goes in and
  out: the document, the table of the names seen in the tag, the vendor mappings.
\<close>

definition describeOperation ::
  "host \<Rightarrow> config \<Rightarrow> string \<Rightarrow> json \<Rightarrow> (string \<Rightarrow> counter option) \<Rightarrow> json list \<Rightarrow> api
   \<Rightarrow> error + (descriptor \<times> json \<times> (string \<Rightarrow> counter option) \<times> json list)" where
  "describeOperation h cfg tag openAPIData rd maps newApi =
     (case getParamsTP h cfg openAPIData (getProp (api_op newApi) ''parameters'') (api_path newApi) of
        Inl e \<Rightarrow> Inl e
      | Inr allParams \<Rightarrow>
     (case getBodyTP h cfg openAPIData (getAt openAPIData (operationLoc newApi @ [''requestBody''])) of
        Inl e \<Rightarrow> Inl e
      | Inr bodyTP \<Rightarrow>
     (case getResponseTP h cfg openAPIData (operationLoc newApi @ [''responses'']) of
        Inl e \<Rightarrow> Inl e
      | Inr (responseTP, openAPIData') \<Rightarrow>
     (case getFileTP h cfg openAPIData' (getAt openAPIData' (operationLoc newApi @ [''requestBody''])) of
        Inl e \<Rightarrow> Inl e
      | Inr fileTP \<Rightarrow>
     (case (if truthy bodyTP then mentionsFormData (getProp bodyTP ''mediaType'') else Inr False) of
        Inl e \<Rightarrow> Inl e
      | Inr bodyForm \<Rightarrow>
     (case getFuncationName h cfg openAPIData' newApi of
        Inl e \<Rightarrow> Inl e
      | Inr name \<Rightarrow>
     (case vendorRewrite newApi (templatePath (api_path newApi)) maps of
        Inl e \<Rightarrow> Inl e
      | Inr (vendorPath, maps', newApi') \<Rightarrow>
          (let functionName = fst (uniqueName h rd name);
               escapedPathParams = addAliases (lookupParams allParams ''path'');
               formattedPath = substituteAliases vendorPath escapedPathParams;
               finalParams = markComplex
                 (if escapedPathParams \<noteq> []
                  then storeParams allParams ''path'' escapedPathParams
                  else allParams)
           in case getTypeName h cfg openAPIData' newApi' of
                Inl e \<Rightarrow> Inl e
              | Inr tn \<Rightarrow>
                  Inr (\<lparr> d_api = newApi',
                         functionName = (if isCamelCase cfg then camelCase h functionName
                                         else functionName),
                         typeName = tn,
                         path = getPrefixPath cfg formattedPath (api_method newApi') tag
                                  functionName,
                         pathInComment = escapeStars formattedPath,
                         hasPathVariables = strIncludes formattedPath ''{'',
                         hasApiPrefix = (case apiPrefix cfg of
                                           None \<Rightarrow> False
                                         | Some (PrefixString s) \<Rightarrow> s \<noteq> []
                                         | Some (PrefixFunction f) \<Rightarrow> True),
                         desc = descOf functionName newApi'
                                  (getAt openAPIData' (operationLoc newApi @ [''responses''])),
                         hasHeader = (map_of allParams ''header'' \<noteq> None
                                      \<or> (truthy bodyTP \<and> truthy (getProp bodyTP ''mediaType''))),
                         params = finalParams,
                         hasParams = (finalParams \<noteq> []),
                         options = (case customOptionsDefaultValue cfg of
                                      None \<Rightarrow> JObj []
                                    | Some hook \<Rightarrow> if truthy (hook newApi') then hook newApi'
                                                   else JObj []),
                         body = bodyTP,
                         d_file = fileTP,
                         hasFormData = (bodyForm \<or> truthy fileTP),
                         response = responseTP \<rparr>,
                       openAPIData', snd (uniqueName h rd name), maps')))))))))"

text \<open>The descriptors of one tag in encounter order, before the sort.\<close>

fun describeAll ::
  "host \<Rightarrow> config \<Rightarrow> string \<Rightarrow> json \<Rightarrow> (string \<Rightarrow> counter option) \<Rightarrow> json list \<Rightarrow> api list
   \<Rightarrow> error + (descriptor list \<times> json \<times> json list)" where
  "describeAll h cfg tag openAPIData rd maps [] = Inr ([], openAPIData, maps)"
| "describeAll h cfg tag openAPIData rd maps (a # as) =
     (case describeOperation h cfg tag openAPIData rd maps a of
        Inl e \<Rightarrow> Inl e
      | Inr (d, openAPIData', rd', maps') \<Rightarrow>
          (case describeAll h cfg tag openAPIData' rd' maps' as of
             Inl e \<Rightarrow> Inl e
           | Inr (ds, openAPIData'', maps'') \<Rightarrow> Inr (d # ds, openAPIData'', maps'')))"

definition supportedEntries :: "api list \<Rightarrow> api list" where
  "supportedEntries entries = filter (\<lambda>a. \<not> strIncludes (api_path a) ''${'') entries"

text \<open>
  \<open>xs.sort((a, b) => a.path.localeCompare(b.path))\<close>: the stable sort by the comparison
  of the host.
\<close>

fun insertByPath :: "(string \<Rightarrow> string \<Rightarrow> bool) \<Rightarrow> descriptor \<Rightarrow> descriptor list \<Rightarrow> descriptor list" where
  "insertByPath le d [] = [d]"
| "insertByPath le d (x # xs) =
     (if le (path d) (path x) then d # x # xs else x # insertByPath le d xs)"

definition sortByPath :: "(string \<Rightarrow> string \<Rightarrow> bool) \<Rightarrow> descriptor list \<Rightarrow> descriptor list" where
  "sortByPath le ds = foldr (insertByPath le) ds []"

definition genParamsOfTag ::
  "host \<Rightarrow> config \<Rightarrow> string \<Rightarrow> json \<Rightarrow> json list \<Rightarrow> api list
   \<Rightarrow> error + (descriptor list \<times> json \<times> json list)" where
  "genParamsOfTag h cfg tag openAPIData maps entries =
     (case describeAll h cfg tag openAPIData Map.empty maps (supportedEntries entries) of
        Inl e \<Rightarrow> Inl e
      | Inr (ds, openAPIData', maps') \<Rightarrow> Inr (sortByPath (localeLe h) ds, openAPIData', maps'))"

text \<open>
  \<open>getServiceTP\<close>: one file per tag that has operations left, in the order of the tags.
  It returns the files and the document as its writes leave it.
\<close>

record tagFile =
  className :: string
  instanceName :: string
  operations :: "descriptor list"

definition replaceDot :: "string \<Rightarrow> string" where
  "replaceDot s = upperAfter ''-_ '' (map (\<lambda>c. if c = CHR ''.'' then CHR ''_'' else c) s)"

definition fileOfTag :: "config \<Rightarrow> string \<Rightarrow> nat \<Rightarrow> descriptor list \<Rightarrow> tagFile" where
  "fileOfTag cfg tag index genParams =
     (let fileName = (if replaceDot tag = [] then ''api'' @ digitsOf index else replaceDot tag)
      in \<lparr> className = (case customClassName cfg of None \<Rightarrow> fileName | Some hook \<Rightarrow> hook tag),
           instanceName = (case fileName of
                             [] \<Rightarrow> ''undefined''
                           | c # rest \<Rightarrow> toLowerChar c # rest),
           operations = genParams \<rparr>)"

fun serviceFiles ::
  "host \<Rightarrow> config \<Rightarrow> nat \<Rightarrow> json \<Rightarrow> json list \<Rightarrow> (string \<times> api list) list
   \<Rightarrow> error + (tagFile list \<times> json \<times> json list)" where
  "serviceFiles h cfg index openAPIData maps [] = Inr ([], openAPIData, maps)"
| "serviceFiles h cfg index openAPIData maps ((tag, entries) # rest) =
     (case genParamsOfTag h cfg tag openAPIData maps entries of
        Inl e \<Rightarrow> Inl e
      | Inr (genParams, openAPIData', maps') \<Rightarrow>
          (case serviceFiles h cfg (Suc index) openAPIData' maps' rest of
             Inl e \<Rightarrow> Inl e
           | Inr (files, openAPIData'', maps'') \<Rightarrow>
               Inr (fileOfTag cfg tag index genParams # files, openAPIData'', maps'')))"

definition getServiceTP ::
  "host \<Rightarrow> config \<Rightarrow> json \<Rightarrow> (string \<times> api list) list \<Rightarrow> error + (tagFile list \<times> json)" where
  "getServiceTP h cfg openAPIData apiData =
     (case serviceFiles h cfg 0 openAPIData [] apiData of
        Inl e \<Rightarrow> Inl e
      | Inr (files, openAPIData', maps) \<Rightarrow>
          Inr (filter (\<lambda>f. operations f \<noteq> []) files, openAPIData'))"

text \<open>
  The two passes in a row, as \<open>new ServiceGenerator(config, openAPIData).getServiceTP()\<close>
  runs them.
\<close>

definition generateServices :: "host \<Rightarrow> config \<Rightarrow> json \<Rightarrow> error + tagFile list" where
  "generateServices h cfg openAPIData =
     (case groupOperations h cfg openAPIData of
        Inl e \<Rightarrow> Inl e
      | Inr apiData \<Rightarrow> map_sum id fst (getServiceTP h cfg openAPIData apiData))"

section \<open>TypeExpressionSynthesizer: the declarations\<close>











text \<open>
  Two abbreviations for the statements about function names: how many of the given
  entries synthesize a given name, and the case folding that \<open>isCamelCase\<close> switches on.
\<close>

definition earlier :: "host \<Rightarrow> config \<Rightarrow> json \<Rightarrow> string \<Rightarrow> api list \<Rightarrow> nat" where
  "earlier h cfg openAPIData name entries =
     length (filter (\<lambda>a. getFuncationName h cfg openAPIData a = Inr name) entries)"

definition caseFold :: "host \<Rightarrow> config \<Rightarrow> string \<Rightarrow> string" where
  "caseFold h cfg s = (if isCamelCase cfg then camelCase h s else s)"

section \<open>Notions for the statements about the document\<close>

text \<open>
  \<open>reachable v l\<close> says that the location \<open>l\<close> leads to a node of \<open>v\<close> through members that
  exist.
\<close>

fun reachable :: "json \<Rightarrow> string list \<Rightarrow> bool" where
  "reachable v [] = True"
| "reachable v (k # ks) = (isObject v \<and> k \<in> set (objectKeys v) \<and> reachable (getProp v k) ks)"









section \<open>Notions of the specification\<close>

text \<open>
  The specification says that an item expression denotes a union when it contains a
  top-level or-join. Following those words: the join \<open>|\<close> with a blank on either side,
  at a position that no pair of brackets encloses.
\<close>

fun specTopLevelUnion :: "nat \<Rightarrow> string \<Rightarrow> bool" where
  "specTopLevelUnion depth [] = False"
| "specTopLevelUnion depth (c # s) =
     (if c \<in> set ''({[<'' then specTopLevelUnion (Suc depth) s
      else if c \<in> set '')}]>'' then specTopLevelUnion (depth - 1) s
      else (depth = 0 \<and> startsWith (c # s) '' | '') \<or> specTopLevelUnion depth s)"

section \<open>Example inputs\<close>

text \<open>
  A host with a small reserved-word table and the inherited members of a plain object
  as Node.js prints them, and a configuration without hooks, for the concrete
  evaluations below.
\<close>

definition exampleHost :: host where
  "exampleHost =
     \<lparr> reservedCheck =
         (\<lambda>w. case w of
                JStr s \<Rightarrow> s \<in> set [''delete'', ''class'', ''new'', ''default'', ''function'']
              | _ \<Rightarrow> False),
       camelCase = (\<lambda>s. s),
       convertToPinyin = (\<lambda>s. s),
       localeLe = (\<lambda>a b. a \<le> b),
       stackDepth = 64,
       inheritedMember =
         (\<lambda>name. if name = ''__proto__'' then Some ''[object Object]''
                  else if name = ''constructor'' then Some ''function Object() { [native code] }''
                  else if name \<in> set [''toString'', ''toLocaleString'', ''valueOf'',
                                       ''hasOwnProperty'', ''isPrototypeOf'',
                                       ''propertyIsEnumerable'', ''__defineGetter__'',
                                       ''__defineSetter__'', ''__lookupGetter__'',
                                       ''__lookupSetter__'']
                  then Some (''function '' @ name @ ''() { [native code] }'')
                  else None) \<rparr>"

definition plainConfig :: config where
  "plainConfig =
     \<lparr> namespace = None, isCamelCase = False, apiPrefix = None, dataFields = None,
       enumStyle = None,
       customFunctionName = None, customTypeName = None, customType = None,
       customFileNames = None, customClassName = None,
       customOptionsDefaultValue = None \<rparr>"

text \<open>A document with the two paths \<open>/api/users\<close> and \<open>/api/users/{id}\<close>, each with a \<open>get\<close>.\<close>

definition usersDoc :: json where
  "usersDoc =
     JObj [(''paths'', JObj [
        (''/api/users'', JObj [(''get'', JObj [])]),
        (''/api/users/{id}'', JObj [(''get'', JObj [])])])]"

text \<open>
  Schemas: a union of two scalars, an object with one property of that union type, and
  the array of a given item schema.
\<close>

definition unionItems :: json where
  "unionItems = JObj [(''oneOf'', JArr [JObj [(''type'', JStr ''string'')],
                                       JObj [(''type'', JStr ''number'')]])]"

definition recordItems :: json where
  "recordItems = JObj [(''type'', JStr ''object''), (''properties'', JObj [(''a'', unionItems)])]"

definition arrayOf :: "json \<Rightarrow> json" where
  "arrayOf items = JObj [(''type'', JStr ''array''), (''items'', items)]"

text \<open>
  An object schema whose three properties show the signals: \<open>id\<close> has none, \<open>name\<close> is in
  the required list, \<open>flag\<close> carries its own required flag.
\<close>

definition petSchema :: json where
  "petSchema =
     JObj [(''type'', JStr ''object''),
           (''required'', JArr [JStr ''name'']),
           (''properties'', JObj [
              (''id'', JObj [(''type'', JStr ''number'')]),
              (''name'', JObj [(''type'', JStr ''string'')]),
              (''flag'', JObj [(''type'', JStr ''boolean''), (''required'', JBool True)])])]"

text \<open>
  A document whose schema \<open>A\<close> is a reference to a schema that does not exist, beside a
  plain schema \<open>B\<close>; and the schema of the specification's inheritance example.
\<close>

definition danglingDoc :: json where
  "danglingDoc =
     JObj [(''components'', JObj [(''schemas'', JObj [
        (''A'', JObj [(''$ref'', JStr ''#/components/schemas/Missing'')]),
        (''B'', JObj [(''type'', JStr ''object'')])])])]"

definition inheritingSchema :: json where
  "inheritingSchema =
     JObj [(''allOf'', JArr [JObj [(''$ref'', JStr ''#/A'')],
                            JObj [(''properties'', JObj [(''x'', JObj [(''type'', JStr ''string'')])])]]),
           (''properties'', JObj [(''y'', JObj [(''type'', JStr ''number'')])])]"

text \<open>
  Documents for the grouper: one operation without router field, tags and operation id;
  two operations of one tag with the same operation id, and the tag table of that
  document; three paths with path parameters. A host whose \<open>camelCase\<close> removes the
  underscore, as lodash does on the names used below (\<open>listUsers_2\<close> becomes
  \<open>listUsers2\<close>, \<open>listUsers\<close> and \<open>user\<close> stay). The last definition reads a descriptor's
  path with the name and alias of each path parameter.
\<close>

definition untaggedDoc :: json where
  "untaggedDoc =
     JObj [(''paths'', JObj [
        (''/api/users'', JObj [(''get'', JObj [(''summary'', JStr ''List the users'')])])])]"

definition listDoc :: json where
  "listDoc =
     JObj [(''paths'', JObj [
        (''/users'', JObj [(''get'', JObj [(''operationId'', JStr ''listUsers''),
                                           (''tags'', JArr [JStr ''user''])])]),
        (''/members'', JObj [(''get'', JObj [(''operationId'', JStr ''listUsers''),
                                             (''tags'', JArr [JStr ''user''])])])])]"

definition aliasDoc :: json where
  "aliasDoc =
     JObj [(''paths'', JObj [
        (''/users/{id}/posts/{postId}'', JObj [(''get'', JObj [(''tags'', JArr [JStr ''user''])])]),
        (''/a/{x}/{param0}'', JObj [(''get'', JObj [(''tags'', JArr [JStr ''user''])])]),
        (''/a/{id}/b/{id}'', JObj [(''get'', JObj [(''tags'', JArr [JStr ''user''])])])])]"

definition foldingHost :: host where
  "foldingHost = exampleHost\<lparr>camelCase := filter (\<lambda>c. c \<noteq> CHR ''_'')\<rparr>"

definition listGroups :: "(string \<times> api list) list" where
  "listGroups =
     [(''user'',
       [\<lparr>api_path = ''/users'', api_method = ''get'',
          api_op = JObj [(''operationId'', JStr ''listUsers''), (''tags'', JArr [JStr ''user''])]\<rparr>,
        \<lparr>api_path = ''/members'', api_method = ''get'',
          api_op = JObj [(''operationId'', JStr ''listUsers''), (''tags'', JArr [JStr ''user''])]\<rparr>])]"

definition pathAliases :: "descriptor \<Rightarrow> string \<times> (json \<times> json) list" where
  "pathAliases d =
     (path d, map (\<lambda>p. (getProp p ''name'', getProp p ''alias'')) (lookupParams (params d) ''path''))"















text \<open>A document with two operations whose operation id is \<open>toString\<close>.\<close>

definition toStringDoc :: json where
  "toStringDoc =
     JObj [(''paths'',
            JObj [(''/a'', JObj [(''get'', JObj [(''operationId'', JStr ''toString''),
                                                 (''tags'', JArr [JStr ''user''])])]),
                  (''/b'', JObj [(''get'', JObj [(''operationId'', JStr ''toString''),
                                                 (''tags'', JArr [JStr ''user''])])])])]"
section \<open>Auxiliary facts\<close>

lemma inStrings_JStr: "inStrings (JStr s) xs \<longleftrightarrow> s \<in> set xs"
  by (simp add: inStrings_def)

lemma isObject_not_nullish: "isObject v \<Longrightarrow> \<not> isNullish v"
  by (cases v) auto

lemma digitsOf_digits: "set (digitsOf n) \<subseteq> set ''0123456789''"
proof (induction n rule: digitsOf.induct)
  case (1 n)
  have nth: "''0123456789'' ! k \<in> set ''0123456789''" if "k < 10" for k
    using that nth_mem [of k "''0123456789''"] by simp
  show ?case
  proof (cases "n < 10")
    case True
    then show ?thesis using nth [of n] by (subst digitsOf.simps) simp
  next
    case False
    then show ?thesis using 1 nth [of "n mod 10"] by (subst digitsOf.simps) simp
  qed
qed

lemma indexOfKey_nondigit:
  "c \<in> set k \<Longrightarrow> c \<notin> set ''0123456789'' \<Longrightarrow> indexOfKey n k = None"
  unfolding indexOfKey_def find_None_iff using digitsOf_digits by blast

lemma indexOfKey_required: "indexOfKey n ''required'' = None"
  by (rule indexOfKey_nondigit [of "CHR ''r''"]) simp_all

lemma getProp_scalar_required:
  "\<not> truthy node \<Longrightarrow> getProp node ''required'' = JUndefined"
  by (cases node) (simp_all add: indexOfKey_nondigit [of "CHR ''r''"])

lemma getProp_array_required: "getProp (JArr xs) ''required'' = JUndefined"
  by (simp add: indexOfKey_nondigit [of "CHR ''r''"])

lemma inStrings_image: "inStrings v xs \<longleftrightarrow> v \<in> JStr ` set xs"
  by (cases v) (auto simp: inStrings_def)

lemma mapE_Inr_nth:
  "mapE f xs = Inr ys \<Longrightarrow> length ys = length xs \<and> (\<forall>i<length xs. f (xs ! i) = Inr (ys ! i))"
proof (induction xs arbitrary: ys)
  case Nil
  then show ?case by simp
next
  case (Cons x xs)
  from Cons.prems obtain y ys' where y: "f x = Inr y" and ys': "mapE f xs = Inr ys'"
    and ys: "ys = y # ys'"
    by (auto split: sum.splits)
  from Cons.IH [OF ys'] y ys show ?case
    by (auto simp: nth_Cons split: nat.splits)
qed

section \<open>Reads after a write\<close>

lemma digitsOf_not_length: "digitsOf i \<noteq> ''length''"
  using digitsOf_digits [of i] by auto

lemma indexOfKey_Some: "indexOfKey n k = Some i \<Longrightarrow> i < n \<and> digitsOf i = k"
  unfolding indexOfKey_def by (auto simp: find_Some_iff)

lemma indexOfKey_None_iff: "indexOfKey n k = None \<longleftrightarrow> k \<notin> digitsOf ` {0 ..< n}"
  unfolding indexOfKey_def by (auto simp: find_None_iff)

lemma map_of_modifyFirst:
  "map_of (modifyFirst k g kvs) k' =
     (if k' = k then map_option g (map_of kvs k) else map_of kvs k')"
  by (induction kvs) auto

lemma fst_modifyFirst: "map fst (modifyFirst k g kvs) = map fst kvs"
  by (induction kvs) auto

lemma objectKeys_modifyMember: "objectKeys (modifyMember k g v) = objectKeys v"
  by (cases v) (auto simp: modifyMember_def fst_modifyFirst split: option.splits)

lemma isObject_modifyMember: "isObject (modifyMember k g v) = isObject v"
  by (cases v) (auto simp: modifyMember_def split: option.splits)

lemma isNullish_modifyMember: "isNullish (modifyMember k g v) = isNullish v"
  by (cases v) (auto simp: modifyMember_def split: option.splits)

lemma truthy_modifyMember: "truthy (modifyMember k g v) = truthy v"
  by (cases v) (auto simp: modifyMember_def split: option.splits)

lemma getProp_modifyMember:
  "getProp (modifyMember k g v) k' =
     (if k' = k \<and> isObject v \<and> k \<in> set (objectKeys v) then g (getProp v k) else getProp v k')"
proof (cases v)
  case (JObj kvs)
  have mem: "k \<in> fst ` set kvs \<longleftrightarrow> map_of kvs k \<noteq> None"
    by (simp add: map_of_eq_None_iff)
  show ?thesis
  proof (cases "map_of kvs k")
    case None
    then show ?thesis using JObj mem
      by (simp add: modifyMember_def map_of_modifyFirst)
  next
    case (Some x)
    then show ?thesis using JObj mem
      by (simp add: modifyMember_def map_of_modifyFirst)
  qed
next
  case (JArr xs)
  show ?thesis
  proof (cases "indexOfKey (length xs) k")
    case None
    then have "k \<notin> digitsOf ` {0 ..< length xs}" by (simp add: indexOfKey_None_iff)
    then show ?thesis using JArr None
      by (simp add: modifyMember_def)
  next
    case (Some i)
    from indexOfKey_Some [OF Some] have i: "i < length xs" "digitsOf i = k" by auto
    have kl: "k \<noteq> ''length''" using i digitsOf_not_length by auto
    have mem: "k \<in> set (objectKeys v)" using JArr i by auto
    show ?thesis
    proof (cases "k' = k")
      case True
      then show ?thesis using JArr Some i kl mem
        by (simp add: modifyMember_def)
    next
      case False
      have "xs[i := y] ! j = xs ! j" if "indexOfKey (length xs) k' = Some j" for j y
      proof -
        from indexOfKey_Some [OF that] i False have "i \<noteq> j" by auto
        then show ?thesis by simp
      qed
      then show ?thesis using JArr Some False
        by (auto simp: modifyMember_def split: option.splits)
    qed
  qed
qed (simp_all add: modifyMember_def)

lemma modifyMember_absent:
  "\<not> (isObject v \<and> k \<in> set (objectKeys v)) \<Longrightarrow> modifyMember k g v = v"
proof (cases v)
  case (JObj kvs)
  assume "\<not> (isObject v \<and> k \<in> set (objectKeys v))"
  then have "k \<notin> fst ` set kvs" using JObj by auto
  then have "modifyFirst k g kvs = kvs" by (induction kvs) auto
  then show ?thesis using JObj by (simp add: modifyMember_def)
next
  case (JArr xs)
  assume "\<not> (isObject v \<and> k \<in> set (objectKeys v))"
  then have "indexOfKey (length xs) k = None" using JArr by (auto simp: indexOfKey_None_iff)
  then show ?thesis using JArr by (simp add: modifyMember_def)
qed (simp_all add: modifyMember_def)

lemma getAt_append: "getAt v (l @ r) = getAt (getAt v l) r"
  by (induction l arbitrary: v) auto

lemma modifyAt_unreachable: "\<not> reachable v l \<Longrightarrow> modifyAt l g v = v"
proof (induction l arbitrary: v)
  case Nil
  then show ?case by simp
next
  case (Cons k ks)
  show ?case
  proof (cases "isObject v \<and> k \<in> set (objectKeys v)")
    case False
    then show ?thesis by (simp add: modifyMember_absent)
  next
    case True
    with Cons.prems have "\<not> reachable (getProp v k) ks" by simp
    from Cons.IH [OF this] have same: "modifyAt ks g (getProp v k) = getProp v k" .
    show ?thesis
    proof (cases v)
      case (JObj kvs)
      have "modifyFirst k f kvs = kvs" if "\<And>x. map_of kvs k = Some x \<Longrightarrow> f x = x" for f
        using that by (induction kvs) (auto split: if_splits)
      then show ?thesis using JObj same
        by (auto simp: modifyMember_def split: option.splits)
    next
      case (JArr xs)
      then show ?thesis using same True
        by (auto simp: modifyMember_def digitsOf_not_length split: option.splits
                 dest!: indexOfKey_Some)
    qed (use True in simp_all)
  qed
qed

lemma getAt_modifyAt:
  "getAt (modifyAt l g v) (l @ r) = (if reachable v l then getAt (g (getAt v l)) r else getAt v (l @ r))"
proof (induction l arbitrary: v)
  case Nil
  then show ?case by simp
next
  case (Cons k ks)
  show ?case
  proof (cases "isObject v \<and> k \<in> set (objectKeys v)")
    case False
    then show ?thesis by (auto simp: modifyMember_absent)
  next
    case True
    then show ?thesis
      by (simp add: getProp_modifyMember Cons.IH)
  qed
qed


lemma map_of_setProp: "map_of (setProp kvs k x) k' = (if k' = k then Some x else map_of kvs k')"
  by (induction kvs) auto

lemma getProp_setProp: "getProp (JObj (setProp kvs k x)) k' = (if k' = k then x else getProp (JObj kvs) k')"
  by (simp add: map_of_setProp)



lemma getProp_writeMember_other: "k' \<noteq> k \<Longrightarrow> getProp (writeMember k x v) k' = getProp v k'"
  by (cases v) (simp_all add: writeMember_def map_of_setProp)

lemma isObject_writeMember: "isObject (writeMember k x v) = isObject v"
  by (cases v) (simp_all add: writeMember_def)


section \<open>The write of the required flags\<close>









lemma getResponseTP_write:
  assumes "getResponseTP h cfg doc loc = Inr (r, doc')"
  shows "doc' = doc
       \<or> (\<exists>l schema.
             ((\<exists>response mediaType. l = response @ [''content'', mediaType, ''schema''])
              \<or> (\<exists>schemaName field.
                    l = [''components'', ''schemas'', schemaName, ''properties'', field]))
             \<and> flagProperties (getAt doc l) = Inr schema
             \<and> doc' = modifyAt l (\<lambda>_. schema) doc)"
proof -
  have u: "sl = sloc
         \<or> (\<exists>schemaName field.
               sl = Some [''components'', ''schemas'', schemaName, ''properties'', field])"
    if "unwrapLoc cfg doc schema sloc = Inr sl" for schema sloc sl
    using that unfolding unwrapLoc_def
    by (auto simp: Let_def split: if_splits json.splits option.splits list.splits)
  consider (same) "doc' = doc"
    | (written) S sloc sl schema where
        "unwrapLoc cfg doc S sloc = Inr sl"
        "sloc = None \<or> (\<exists>pre mt. sloc = Some (pre @ [''content'', mt, ''schema'']))"
        "flagProperties (case sl of None \<Rightarrow> DEFAULT_SCHEMA | Some l \<Rightarrow> getAt doc l) = Inr schema"
        "doc' = (case sl of None \<Rightarrow> doc | Some l \<Rightarrow> modifyAt l (\<lambda>_. schema) doc)"
    using assms unfolding getResponseTP_def
    by (auto simp: Let_def simp del: modifyAt.simps split: if_splits sum.splits)
  then show ?thesis
  proof cases
    case same
    then show ?thesis by simp
  next
    case written
    have wr: ?thesis
      if "sl = Some l"
        and "(\<exists>response mediaType. l = response @ [''content'', mediaType, ''schema''])
             \<or> (\<exists>schemaName field.
                   l = [''components'', ''schemas'', schemaName, ''properties'', field])" for l
      using written(3,4) that
      by (intro disjI2 exI [of _ l] exI [of _ schema]) simp
    have no: ?thesis if "sl = None"
      using written(4) that by simp
    from u [OF written(1)] show ?thesis
    proof
      assume "sl = sloc"
      with written(2) consider "sl = None"
        | pre mt where "sl = Some (pre @ [''content'', mt, ''schema''])"
        by auto
      then show ?thesis
      proof cases
        case 1
        then show ?thesis by (rule no)
      next
        case 2
        then show ?thesis by (rule wr) blast
      qed
    next
      assume "\<exists>schemaName field.
                sl = Some [''components'', ''schemas'', schemaName, ''properties'', field]"
      then obtain schemaName field where
        "sl = Some [''components'', ''schemas'', schemaName, ''properties'', field]" by blast
      then show ?thesis by (rule wr) blast
    qed
  qed
qed


text \<open>
  The location that \<open>getResponseTP\<close> writes to holds the schema that the source reads
  from the resolved response: the resolution copies the members of the node at the end
  of the chain of references, and the \<open>content\<close> of the copy is that node's.
\<close>

lemma walkRef_getAt: "walkRef obj nodes = Inr v \<Longrightarrow> v = getAt obj nodes"
  by (induction nodes arbitrary: obj) (auto split: if_splits)

lemma digitsOf_not_content: "digitsOf i \<noteq> ''content''"
  using digitsOf_digits [of i] by auto

lemma map_of_zip_absent: "k \<notin> set ks \<Longrightarrow> map_of (zip ks vs) k = None"
  by (auto simp: map_of_eq_None_iff dest: set_zip_leftD)

lemma getProp_spread_content: "getProp (JObj (spread v)) ''content'' = getProp v ''content''"
proof (cases v)
  case (JArr xs)
  have "''content'' \<notin> set (map digitsOf [0 ..< length xs])"
    using digitsOf_not_content by (metis (no_types) imageE list.set_map)
  then have none: "map_of (zip (map digitsOf [0 ..< length xs]) xs) ''content'' = None"
    by (rule map_of_zip_absent)
  show ?thesis unfolding JArr by (simp add: none indexOfKey_nondigit [of "CHR ''c''"])
next
  case (JStr s)
  have "''content'' \<notin> set (map digitsOf [0 ..< length s])"
    using digitsOf_not_content by (metis (no_types) imageE list.set_map)
  then have none: "map_of (zip (map digitsOf [0 ..< length s]) (map (\<lambda>c. JStr [c]) s)) ''content'' = None"
    by (rule map_of_zip_absent)
  show ?thesis unfolding JStr by (simp add: none indexOfKey_nondigit [of "CHR ''c''"])
qed simp_all

lemma resolved_content:
  assumes "resolveRefDepth d doc (getAt doc loc) = Inr resolved"
  shows "getProp resolved ''content'' = getProp (getAt doc (targetLoc d doc loc)) ''content''"
  using assms
proof (induction d arbitrary: loc resolved)
  case 0
  then show ?case by simp
next
  case (Suc d)
  let ?v = "getAt doc loc"
  show ?case
  proof (cases "\<not> truthy ?v \<or> \<not> truthy (getProp ?v ''$ref'')")
    case True
    with Suc.prems show ?thesis by (auto simp: Let_def)
  next
    case False
    with Suc.prems obtain r where r: "getProp ?v ''$ref'' = JStr r"
      by (auto split: json.splits)
    from Suc.prems False r obtain first refPaths where
      sp: "splitStr ''/'' r = first # refPaths"
      by (auto split: list.splits)
    show ?thesis
    proof (cases "first = ''#''")
      case hash: False
      with Suc.prems False r sp show ?thesis by (auto simp: Let_def)
    next
      case True
      with Suc.prems False r sp obtain obj inner where
        w: "walkRef doc refPaths = Inr obj"
        and i: "resolveRefDepth d doc obj = Inr inner"
        and res: "resolved = JObj (setProp (spread inner) ''type''
                               (if truthy (getProp obj ''$ref'') then getProp inner ''type'' else obj))"
        by (auto split: sum.splits if_splits)
      from walkRef_getAt [OF w] have obj: "obj = getAt doc refPaths" .
      from Suc.IH [OF i [unfolded obj]]
      have "getProp inner ''content'' = getProp (getAt doc (targetLoc d doc refPaths)) ''content''" .
      moreover have "getProp resolved ''content'' = getProp inner ''content''"
        unfolding res using getProp_spread_content [of inner]
        by (simp add: map_of_setProp)
      moreover have "targetLoc (Suc d) doc loc = targetLoc d doc refPaths"
        using False r sp True by (simp add: Let_def)
      ultimately show ?thesis by simp
    qed
  qed
qed

lemma response_schema_location:
  assumes "resolveRefObject h doc (getProp (getAt doc loc) chosen) = Inr resolved"
  shows "getProp (getProp (getProp resolved ''content'') mediaType) ''schema''
       = getAt doc (targetLoc (stackDepth h) doc (loc @ [chosen])
                    @ [''content'', mediaType, ''schema''])"
proof -
  from assms have "resolveRefDepth (stackDepth h) doc (getAt doc (loc @ [chosen])) = Inr resolved"
    by (simp add: resolveRefObject_def getAt_append)
  from resolved_content [OF this] show ?thesis by (simp add: getAt_append)
qed

section \<open>The document through the synthesis pass\<close>

lemma keys_modifyAt_deep:
  assumes "2 \<le> length l"
  shows "objectKeysE (getProp (modifyAt l g v) k) = objectKeysE (getProp v k)"
proof -
  from assms obtain k1 k2 ks where l: "l = k1 # k2 # ks"
    by (cases l; cases "tl l") auto
  show ?thesis unfolding l
    by (simp add: getProp_modifyMember objectKeysE_def objectKeys_modifyMember
                  isNullish_modifyMember)
qed

lemma getResponseTP_keys:
  assumes "getResponseTP h cfg doc loc = Inr (r, doc')"
  shows "objectKeysE (getProp doc' k) = objectKeysE (getProp doc k)"
proof -
  from getResponseTP_write [OF assms] show ?thesis
  proof
    assume "doc' = doc"
    then show ?thesis by simp
  next
    assume "\<exists>l schema.
             ((\<exists>response mediaType. l = response @ [''content'', mediaType, ''schema''])
              \<or> (\<exists>schemaName field.
                    l = [''components'', ''schemas'', schemaName, ''properties'', field]))
             \<and> flagProperties (getAt doc l) = Inr schema
             \<and> doc' = modifyAt l (\<lambda>_. schema) doc"
    then obtain l schema where
      s: "(\<exists>response mediaType. l = response @ [''content'', mediaType, ''schema''])
          \<or> (\<exists>schemaName field.
                l = [''components'', ''schemas'', schemaName, ''properties'', field])"
      and d: "doc' = modifyAt l (\<lambda>_. schema) doc"
      by blast
    from s have "2 \<le> length l" by auto
    then show ?thesis unfolding d by (rule keys_modifyAt_deep)
  qed
qed

lemma getFuncationName_keys:
  assumes "objectKeysE (getProp doc' ''paths'') = objectKeysE (getProp doc ''paths'')"
  shows "getFuncationName h cfg doc' a = getFuncationName h cfg doc a"
  unfolding getFuncationName_def assms ..

lemma getTypeName_keys:
  assumes "objectKeysE (getProp doc' ''paths'') = objectKeysE (getProp doc ''paths'')"
  shows "getTypeName h cfg doc' a = getTypeName h cfg doc a"
  unfolding getTypeName_def getFuncationName_keys [OF assms] ..

lemma describeOperation_document:
  assumes "describeOperation h cfg tag doc rd maps a = Inr (d, doc', rd', maps')"
  shows "\<exists>r. getResponseTP h cfg doc (operationLoc a @ [''responses'']) = Inr (r, doc')"
  using assms unfolding describeOperation_def
  by (auto simp: Let_def split: sum.splits prod.splits)

lemma describeOperation_name:
  assumes "describeOperation h cfg tag doc rd maps a = Inr (d, doc', rd', maps')"
  shows "\<exists>name. getFuncationName h cfg doc a = Inr name
              \<and> functionName d = (if isCamelCase cfg then camelCase h (fst (uniqueName h rd name))
                                  else fst (uniqueName h rd name))
              \<and> rd' = snd (uniqueName h rd name)"
proof -
  from describeOperation_document [OF assms] obtain r where
    "getResponseTP h cfg doc (operationLoc a @ [''responses'']) = Inr (r, doc')" ..
  from getFuncationName_keys [OF getResponseTP_keys [OF this]]
  have "getFuncationName h cfg doc' a = getFuncationName h cfg doc a" .
  moreover from assms have "\<exists>name. getFuncationName h cfg doc' a = Inr name
              \<and> functionName d = (if isCamelCase cfg then camelCase h (fst (uniqueName h rd name))
                                  else fst (uniqueName h rd name))
              \<and> rd' = snd (uniqueName h rd name)"
    unfolding describeOperation_def
    by (auto simp: Let_def split: sum.splits prod.splits)
  ultimately show ?thesis by simp
qed



section \<open>The write of the parameter lists\<close>















section \<open>C3: internal references\<close>

text \<open>
  C3, as the program has it. Let a truthy node have the reference \<open>r\<close> whose first
  segment is \<open>#\<close>, and let the host allow two nested calls. If following the other
  segments from the document root meets \<open>undefined\<close> or \<open>null\<close> before the last segment,
  the read raises; if the end value is falsy, resolution raises the data error that
  names \<open>r\<close>. If the end value is truthy and has no reference of its own, resolution
  returns a copy of it whose \<open>type\<close> member is the end value itself. If the end value is
  a reference again, the result is that of resolving it in turn, error included.
\<close>

theorem C3_internal_reference:
  assumes "truthy refObject"
    and "getProp refObject ''$ref'' = JStr r"
    and "splitStr ''/'' r = ''#'' # refPaths"
    and "2 \<le> stackDepth h"
  shows "(\<forall>e. walkRef openAPIData refPaths = Inl e
              \<longrightarrow> resolveRefObject h openAPIData refObject = Inl e)
       \<and> (\<forall>obj. walkRef openAPIData refPaths = Inr obj \<and> \<not> truthy obj
              \<longrightarrow> resolveRefObject h openAPIData refObject = Inl (DataError (notFoundMessage r)))
       \<and> (\<forall>obj. walkRef openAPIData refPaths = Inr obj \<and> truthy obj
                 \<and> \<not> truthy (getProp obj ''$ref'')
              \<longrightarrow> resolveRefObject h openAPIData refObject
                    = Inr (JObj (setProp (spread obj) ''type'' obj)))
       \<and> (\<forall>obj. walkRef openAPIData refPaths = Inr obj \<and> truthy obj
                 \<and> truthy (getProp obj ''$ref'')
              \<longrightarrow> resolveRefObject h openAPIData refObject
                    = (case resolveRefDepth (stackDepth h - 1) openAPIData obj of
                         Inl e \<Rightarrow> Inl e
                       | Inr resolved \<Rightarrow>
                           Inr (JObj (setProp (spread resolved) ''type'' (getProp resolved ''type'')))))"
proof -
  from assms(4) obtain d where d: "stackDepth h = Suc (Suc d)"
    by (metis Suc_le_D numeral_2_eq_2 Suc_le_mono le0 add_2_eq_Suc le_Suc_ex)
  have r: "r \<noteq> []" using assms(3) by (cases r) auto
  have outer: "resolveRefObject h openAPIData refObject
      = (case walkRef openAPIData refPaths of
           Inl e \<Rightarrow> Inl e
         | Inr obj \<Rightarrow>
             (if \<not> truthy obj then Inl (DataError (notFoundMessage r))
              else (case resolveRefDepth (Suc d) openAPIData obj of
                      Inl e \<Rightarrow> Inl e
                    | Inr resolved \<Rightarrow>
                        Inr (JObj (setProp (spread resolved) ''type''
                               (if truthy (getProp obj ''$ref'')
                                then getProp resolved ''type''
                                else obj))))))"
    unfolding resolveRefObject_def d
    by (subst resolveRefDepth.simps) (simp add: assms(1,2,3) r)
  have plain: "resolveRefDepth (Suc d) openAPIData obj = Inr obj"
    if "\<not> truthy (getProp obj ''$ref'')" for obj
    using that by simp
  show ?thesis
    unfolding outer using plain
    by (auto simp: d simp del: resolveRefDepth.simps split: sum.splits)
qed

text \<open>The theorem at a missing schema, at a plain schema, and at a missing path.\<close>

theorem C3_witness:
  "resolveRefObject exampleHost danglingDoc (JObj [(''$ref'', JStr ''#/components/schemas/Missing'')])
     = Inl (DataError (notFoundMessage ''#/components/schemas/Missing''))
   \<and> resolveRefObject exampleHost danglingDoc (JObj [(''$ref'', JStr ''#/components/schemas/B'')])
     = Inr (JObj [(''type'', JObj [(''type'', JStr ''object'')])])
   \<and> resolveRefObject exampleHost danglingDoc (JObj [(''$ref'', JStr ''#/x/y'')]) = Inl TypeError"
proof -
  have sd: "2 \<le> stackDepth exampleHost" by (simp add: exampleHost_def)
  have w1: "walkRef danglingDoc [''components'', ''schemas'', ''Missing''] = Inr JUndefined"
    and w2: "walkRef danglingDoc [''components'', ''schemas'', ''B''] = Inr (JObj [(''type'', JStr ''object'')])"
    and w3: "walkRef danglingDoc [''x'', ''y''] = Inl TypeError"
    by (simp_all add: danglingDoc_def)
  have s1: "splitStr ''/'' ''#/components/schemas/Missing'' = ''#'' # [''components'', ''schemas'', ''Missing'']"
    and s2: "splitStr ''/'' ''#/components/schemas/B'' = ''#'' # [''components'', ''schemas'', ''B'']"
    and s3: "splitStr ''/'' ''#/x/y'' = ''#'' # [''x'', ''y'']"
    by simp_all
  from C3_internal_reference [of "JObj [(''$ref'', JStr ''#/components/schemas/Missing'')]", OF _ _ s1 sd, of danglingDoc] w1
  have a: "resolveRefObject exampleHost danglingDoc (JObj [(''$ref'', JStr ''#/components/schemas/Missing'')])
     = Inl (DataError (notFoundMessage ''#/components/schemas/Missing''))"
    by simp
  from C3_internal_reference [of "JObj [(''$ref'', JStr ''#/components/schemas/B'')]", OF _ _ s2 sd, of danglingDoc] w2
  have b: "resolveRefObject exampleHost danglingDoc (JObj [(''$ref'', JStr ''#/components/schemas/B'')])
     = Inr (JObj [(''type'', JObj [(''type'', JStr ''object'')])])"
    by simp
  from C3_internal_reference [of "JObj [(''$ref'', JStr ''#/x/y'')]", OF _ _ s3 sd, of danglingDoc] w3
  have c: "resolveRefObject exampleHost danglingDoc (JObj [(''$ref'', JStr ''#/x/y'')]) = Inl TypeError"
    by simp
  from a b c show ?thesis by simp
qed


text \<open>
  C3 as the claim has it fails: every segment of \<open>#/components/schemas/A\<close> resolves, and
  resolution raises, because \<open>A\<close> is itself a reference to a missing schema. Nor is the
  value returned for \<open>B\<close> the node \<open>B\<close>: its \<open>type\<close> member holds the node.
\<close>

theorem C3_nested_reference_counterexample:
  "walkRef danglingDoc [''components'', ''schemas'', ''A'']
     = Inr (JObj [(''$ref'', JStr ''#/components/schemas/Missing'')])
   \<and> truthy (JObj [(''$ref'', JStr ''#/components/schemas/Missing'')])
   \<and> resolveRefObject exampleHost danglingDoc (JObj [(''$ref'', JStr ''#/components/schemas/A'')])
     = Inl (DataError (notFoundMessage ''#/components/schemas/Missing''))
   \<and> walkRef danglingDoc [''components'', ''schemas'', ''B''] = Inr (JObj [(''type'', JStr ''object'')])
   \<and> resolveRefObject exampleHost danglingDoc (JObj [(''$ref'', JStr ''#/components/schemas/B'')])
     = Inr (JObj [(''type'', JObj [(''type'', JStr ''object'')])])"
  by code_simp


section \<open>C4: inheritance groups\<close>

lemma allOfGroup_shape:
  assumes "allOfGroup h cfg item = Inr g"
  shows "(truthy (getProp item ''$ref'')
            \<longrightarrow> (\<exists>t. getType h cfg item None = Inr (JStr t)
                     \<and> g = JArr [JObj (setProp (spread item) ''type''
                                          (JStr (lastPiece (splitStr ''/'' t))))]))
       \<and> (\<not> truthy (getProp item ''$ref'')
            \<longrightarrow> (\<exists>ps. getProps h cfg item = Inr ps \<and> g = JArr ps))"
  using assms by (auto simp: allOfGroup_def split: if_splits sum.splits json.splits)

text \<open>
  C4. A node without reference and enumeration whose \<open>allOf\<close> is a non-empty list is
  resolved by \<open>resolveAllOfObject\<close>. Whenever that returns, the result holds one group per
  member, in order: for a member with a reference the single entry that copies the
  member and sets \<open>type\<close> to the last piece of its type name, for any other member its
  own property list; and, if the node has properties of its own, one more group with
  them at the end.
\<close>

theorem C4_allOf_groups:
  assumes "\<not> truthy (getProp schemaObject ''$ref'')"
    and "\<not> truthy (getProp schemaObject ''enum'')"
    and "getProp schemaObject ''allOf'' = JArr items"
    and "items \<noteq> []"
    and "resolveObject h cfg openAPIData schemaObject = Inr r"
  shows "\<exists>groups.
           r = JObj [(''props'', JArr groups)]
         \<and> length groups = length items + (if truthy (getProp schemaObject ''properties'') then 1 else 0)
         \<and> (\<forall>i<length items.
               (truthy (getProp (items ! i) ''$ref'')
                  \<longrightarrow> (\<exists>t. getType h cfg (items ! i) None = Inr (JStr t)
                           \<and> groups ! i = JArr [JObj (setProp (spread (items ! i)) ''type''
                                                        (JStr (lastPiece (splitStr ''/'' t))))]))
             \<and> (\<not> truthy (getProp (items ! i) ''$ref'')
                  \<longrightarrow> (\<exists>ps. getProps h cfg (items ! i) = Inr ps \<and> groups ! i = JArr ps)))
         \<and> (truthy (getProp schemaObject ''properties'')
               \<longrightarrow> (\<exists>extProps. getProps h cfg schemaObject = Inr extProps
                              \<and> groups ! length items = JArr extProps))"
proof -
  have nn: "\<not> isNullish schemaObject" using assms(3) by (cases schemaObject) auto
  have hm: "hasMembers (JArr items)" using assms(4) by (simp add: hasMembers_def)
  from assms(5) have all: "resolveAllOfObject h cfg schemaObject = Inr r"
    by (simp add: resolveObject_def nn assms(1,2,3) hm)
  then obtain props where props: "mapE (allOfGroup h cfg) items = Inr props"
    by (auto simp: resolveAllOfObject_def assms(3) split: sum.splits)
  from mapE_Inr_nth [OF props] have len: "length props = length items"
    and nth: "\<And>i. i < length items \<Longrightarrow> allOfGroup h cfg (items ! i) = Inr (props ! i)"
    by auto
  show ?thesis
  proof (cases "truthy (getProp schemaObject ''properties'')")
    case False
    with all props have r: "r = JObj [(''props'', JArr props)]"
      by (simp add: resolveAllOfObject_def assms(3))
    show ?thesis
      using r len nth False allOfGroup_shape by (intro exI [of _ props]) auto
  next
    case True
    with all props obtain extProps where ext: "getProps h cfg schemaObject = Inr extProps"
      and r: "r = JObj [(''props'', JArr (props @ [JArr extProps]))]"
      by (auto simp: resolveAllOfObject_def assms(3) split: sum.splits)
    have "\<And>i. i < length items \<Longrightarrow> (props @ [JArr extProps]) ! i = props ! i"
      using len by (simp add: nth_append)
    moreover have "(props @ [JArr extProps]) ! length items = JArr extProps"
      using len by (simp add: nth_append)
    ultimately show ?thesis
      using r len nth True ext allOfGroup_shape
      by (intro exI [of _ "props @ [JArr extProps]"]) auto
  qed
qed

text \<open>The theorem at the example of the specification: three groups.\<close>

theorem C4_witness:
  "resolveObject exampleHost plainConfig (JObj []) inheritingSchema
     = Inr (JObj [(''props'', JArr [
         JArr [JObj [(''$ref'', JStr ''#/A''), (''type'', JStr ''A'')]],
         JArr [JObj [(''type'', JStr ''string''), (''name'', JStr ''x''),
                     (''desc'', JStr []), (''required'', JBool False)]],
         JArr [JObj [(''type'', JStr ''number''), (''name'', JStr ''y''),
                     (''desc'', JStr []), (''required'', JBool False)]]])])
   \<and> (\<exists>groups. resolveObject exampleHost plainConfig (JObj []) inheritingSchema
                   = Inr (JObj [(''props'', JArr groups)])
               \<and> length groups = 3)"
proof -
  have res: "resolveObject exampleHost plainConfig (JObj []) inheritingSchema
     = Inr (JObj [(''props'', JArr [
         JArr [JObj [(''$ref'', JStr ''#/A''), (''type'', JStr ''A'')]],
         JArr [JObj [(''type'', JStr ''string''), (''name'', JStr ''x''),
                     (''desc'', JStr []), (''required'', JBool False)]],
         JArr [JObj [(''type'', JStr ''number''), (''name'', JStr ''y''),
                     (''desc'', JStr []), (''required'', JBool False)]]])])"
    by code_simp
  have allOf: "getProp inheritingSchema ''allOf''
      = JArr [JObj [(''$ref'', JStr ''#/A'')],
              JObj [(''properties'', JObj [(''x'', JObj [(''type'', JStr ''string'')])])]]"
    by (simp add: inheritingSchema_def)
  have own: "truthy (getProp inheritingSchema ''properties'')"
    by (simp add: inheritingSchema_def)
  from C4_allOf_groups [OF _ _ allOf _ res] own
  obtain groups where "JObj [(''props'', JArr [
         JArr [JObj [(''$ref'', JStr ''#/A''), (''type'', JStr ''A'')]],
         JArr [JObj [(''type'', JStr ''string''), (''name'', JStr ''x''),
                     (''desc'', JStr []), (''required'', JBool False)]],
         JArr [JObj [(''type'', JStr ''number''), (''name'', JStr ''y''),
                     (''desc'', JStr []), (''required'', JBool False)]]])]
       = JObj [(''props'', JArr groups)]" and "length groups = 3"
    by (auto simp: inheritingSchema_def)
  with res show ?thesis by auto
qed


section \<open>C6: the required marker of an inline object type\<close>

text \<open>
  The flag that \<open>defaultGetType\<close> computes for a property is the disjunction of the
  three signals: the schema's \<open>required\<close> is the boolean true, the key is a member of the
  schema's \<open>required\<close> array, the property node has a truthy \<open>required\<close> member.
\<close>

lemma propertyRequired_signals:
  assumes "propertyRequired schemaObject key = Inr b"
  shows "b \<longleftrightarrow>
           getProp schemaObject ''required'' = JBool True
         \<or> (\<exists>ks. getProp schemaObject ''required'' = JArr ks \<and> JStr key \<in> set ks)
         \<or> truthy (getProp (getProp (getProp schemaObject ''properties'') key) ''required'')"
proof -
  let ?node = "getProp (getProp schemaObject ''properties'') key"
  from assms obtain flag where f: "requiredByFlag schemaObject key = Inr flag"
    and b: "b = (requiredByBoolean schemaObject \<or> requiredByArray schemaObject key \<or> flag)"
    by (auto simp: propertyRequired_def split: sum.splits)
  have 1: "requiredByBoolean schemaObject \<longleftrightarrow> getProp schemaObject ''required'' = JBool True"
    by (auto simp: requiredByBoolean_def split: json.splits)
  have 2: "requiredByArray schemaObject key
           \<longleftrightarrow> (\<exists>ks. getProp schemaObject ''required'' = JArr ks \<and> JStr key \<in> set ks)"
    by (auto simp: requiredByArray_def split: json.splits)
  have 3: "flag \<longleftrightarrow> truthy (getProp ?node ''required'')"
  proof (cases "truthy ?node")
    case False
    then have "getProp ?node ''required'' = JUndefined" by (rule getProp_scalar_required)
    with f False show ?thesis by (simp add: requiredByFlag_def)
  next
    case True
    show ?thesis
    proof (cases ?node)
      case (JObj kvs)
      have "map_of kvs ''required'' = None" if "''required'' \<notin> fst ` set kvs"
        using that by (simp add: map_of_eq_None_iff)
      with f True JObj show ?thesis
        by (auto simp: requiredByFlag_def split: option.splits)
    next
      case (JArr xs)
      with f True show ?thesis by (auto simp: requiredByFlag_def indexOfKey_required)
    qed (use f True in \<open>auto simp: requiredByFlag_def\<close>)
  qed
  show ?thesis unfolding b 1 2 3 ..
qed


lemma rendered_properties:
  assumes "mapE (\<lambda>key. case propertyRequired schemaObject key of
                          Inl e \<Rightarrow> Inl e
                        | Inr required \<Rightarrow>
                            (case defaultGetType h (getProp properties key) ns of
                               Inl e \<Rightarrow> Inl e
                             | Inr t \<Rightarrow> Inr (renderProperty key required t))) keys = Inr rendered"
    and "properties = getProp schemaObject ''properties''"
  shows "\<exists>ts. mapE (\<lambda>key. defaultGetType h (getProp properties key) ns) keys = Inr ts
              \<and> length ts = length keys
              \<and> rendered = map2 (\<lambda>key t. renderProperty key
                     (getProp schemaObject ''required'' = JBool True
                      \<or> (\<exists>ks. getProp schemaObject ''required'' = JArr ks \<and> JStr key \<in> set ks)
                      \<or> truthy (getProp (getProp properties key) ''required'')) t) keys ts"
  using assms(1)
proof (induction keys arbitrary: rendered)
  case Nil
  then show ?case by simp
next
  case (Cons key keys)
  from Cons.prems obtain b t rest where
    b: "propertyRequired schemaObject key = Inr b"
    and t: "defaultGetType h (getProp properties key) ns = Inr t"
    and rest: "mapE (\<lambda>key. case propertyRequired schemaObject key of
                          Inl e \<Rightarrow> Inl e
                        | Inr required \<Rightarrow>
                            (case defaultGetType h (getProp properties key) ns of
                               Inl e \<Rightarrow> Inl e
                             | Inr t \<Rightarrow> Inr (renderProperty key required t))) keys = Inr rest"
    and r: "rendered = renderProperty key b t # rest"
    by (auto split: sum.splits)
  from Cons.IH [OF rest] obtain ts where
    ts: "mapE (\<lambda>key. defaultGetType h (getProp properties key) ns) keys = Inr ts"
        "length ts = length keys"
        "rest = map2 (\<lambda>key t. renderProperty key
                     (getProp schemaObject ''required'' = JBool True
                      \<or> (\<exists>ks. getProp schemaObject ''required'' = JArr ks \<and> JStr key \<in> set ks)
                      \<or> truthy (getProp (getProp properties key) ''required'')) t) keys ts"
    by blast
  have "mapE (\<lambda>key. defaultGetType h (getProp properties key) ns) (key # keys) = Inr (t # ts)"
    using t ts(1) by simp
  moreover have "length (t # ts) = length (key # keys)" using ts(2) by simp
  moreover have "rendered = map2 (\<lambda>key t. renderProperty key
                     (getProp schemaObject ''required'' = JBool True
                      \<or> (\<exists>ks. getProp schemaObject ''required'' = JArr ks \<and> JStr key \<in> set ks)
                      \<or> truthy (getProp (getProp properties key) ''required'')) t) (key # keys) (t # ts)"
    using r ts(3) propertyRequired_signals [OF b] assms(2) by simp
  ultimately show ?case by blast
qed

text \<open>
  C6. Let a schema reach the inline-object case: it is an object without reference,
  enumeration, numeric format or non-empty \<open>oneOf\<close>, \<open>anyOf\<close>, \<open>allOf\<close>, its declared type
  names none of the earlier cases, and it has at least one property. Whenever its
  synthesis returns, the result is the brace pair around one piece per property, in
  the order of the keys; the piece of a key is the quoted key, then nothing if one of
  the three signals holds and the marker \<open>?\<close> if none does, then the property's own
  type expression.
\<close>

theorem C6_required_marker:
  assumes "isObject schemaObject"
    and "\<not> truthy (getProp schemaObject ''$ref'')"
    and "\<not> truthy (getProp schemaObject ''enum'')"
    and "\<not> inStrings (getProp schemaObject ''format'') numberEnum"
    and "getProp schemaObject ''type''
           \<notin> JStr ` set (numberEnum @ dateEnum @ stringEnum @ [''null'', ''boolean'', ''array'', ''enum''])"
    and "\<not> hasMembers (getProp schemaObject ''oneOf'')"
    and "\<not> hasMembers (getProp schemaObject ''anyOf'')"
    and "\<not> hasMembers (getProp schemaObject ''allOf'')"
    and "properties = getProp schemaObject ''properties''"
    and "truthy properties"
    and "objectKeys properties \<noteq> []"
    and "defaultGetType h schemaObject ns = Inr r"
  shows "\<exists>ts. mapE (\<lambda>key. defaultGetType h (getProp properties key) ns) (objectKeys properties) = Inr ts
              \<and> length ts = length (objectKeys properties)
              \<and> r = JStr (''{ '' @ concat (map2 (\<lambda>key t.
                      [CHR 0x27] @ key @ [CHR 0x27]
                      @ (if getProp schemaObject ''required'' = JBool True
                            \<or> (\<exists>ks. getProp schemaObject ''required'' = JArr ks \<and> JStr key \<in> set ks)
                            \<or> truthy (getProp (getProp properties key) ''required'')
                         then [] else ''?'')
                      @ '': '' @ toStr t @ ''; '') (objectKeys properties) ts) @ ''}'')"
proof -
  let ?ty = "getProp schemaObject ''type''"
  have eff: "effectiveType schemaObject = ?ty"
    using assms(3,4) by (simp add: effectiveType_def)
  have fam: "\<not> inStrings ?ty numberEnum" "\<not> inStrings ?ty dateEnum" "\<not> inStrings ?ty stringEnum"
    "?ty \<noteq> JStr ''null''" "?ty \<noteq> JStr ''boolean''" "?ty \<noteq> JStr ''array''" "?ty \<noteq> JStr ''enum''"
    using assms(5) by (auto simp: inStrings_image)
  from assms(12) obtain rendered where
    m: "mapE (\<lambda>key. case propertyRequired schemaObject key of
                          Inl e \<Rightarrow> Inl e
                        | Inr required \<Rightarrow>
                            (case defaultGetType h (getProp properties key) ns of
                               Inl e \<Rightarrow> Inl e
                             | Inr t \<Rightarrow> Inr (renderProperty key required t)))
             (objectKeys properties) = Inr rendered"
    and r: "r = JStr (''{ '' @ concat rendered @ ''}'')"
    using assms(10,11) unfolding assms(9)
    by (subst (asm) defaultGetType.simps)
       (auto simp: isObject_not_nullish assms(1,2,6,7,8) eff fam split: sum.splits)
  from rendered_properties [OF m assms(9)] obtain ts where
    ts: "mapE (\<lambda>key. defaultGetType h (getProp properties key) ns) (objectKeys properties) = Inr ts"
        "length ts = length (objectKeys properties)"
        "rendered = map2 (\<lambda>key t. renderProperty key
                     (getProp schemaObject ''required'' = JBool True
                      \<or> (\<exists>ks. getProp schemaObject ''required'' = JArr ks \<and> JStr key \<in> set ks)
                      \<or> truthy (getProp (getProp properties key) ''required'')) t)
                   (objectKeys properties) ts"
    by blast
  have "r = JStr (''{ '' @ concat (map2 (\<lambda>key t.
                      [CHR 0x27] @ key @ [CHR 0x27]
                      @ (if getProp schemaObject ''required'' = JBool True
                            \<or> (\<exists>ks. getProp schemaObject ''required'' = JArr ks \<and> JStr key \<in> set ks)
                            \<or> truthy (getProp (getProp properties key) ''required'')
                         then [] else ''?'')
                      @ '': '' @ toStr t @ ''; '') (objectKeys properties) ts) @ ''}'')"
    unfolding r ts(3) renderProperty_def by simp
  with ts(1,2) show ?thesis by blast
qed


text \<open>The theorem at a schema with one property for each kind of signal.\<close>

theorem C6_witness:
  "defaultGetType exampleHost petSchema []
     = Inr (JStr (''{ '' @ [CHR 0x27] @ ''id'' @ [CHR 0x27] @ ''?: number; ''
                  @ [CHR 0x27] @ ''name'' @ [CHR 0x27] @ '': string; ''
                  @ [CHR 0x27] @ ''flag'' @ [CHR 0x27] @ '': boolean; }''))
   \<and> (\<exists>ts. mapE (\<lambda>key. defaultGetType exampleHost (getProp (getProp petSchema ''properties'') key) [])
               [''id'', ''name'', ''flag''] = Inr ts
            \<and> length ts = 3)"
proof -
  have res: "defaultGetType exampleHost petSchema []
     = Inr (JStr (''{ '' @ [CHR 0x27] @ ''id'' @ [CHR 0x27] @ ''?: number; ''
                  @ [CHR 0x27] @ ''name'' @ [CHR 0x27] @ '': string; ''
                  @ [CHR 0x27] @ ''flag'' @ [CHR 0x27] @ '': boolean; }''))"
    by code_simp
  have keys: "objectKeys (getProp petSchema ''properties'') = [''id'', ''name'', ''flag'']"
    by code_simp
  have "\<exists>ts. mapE (\<lambda>key. defaultGetType exampleHost (getProp (getProp petSchema ''properties'') key) [])
               (objectKeys (getProp petSchema ''properties'')) = Inr ts
            \<and> length ts = length (objectKeys (getProp petSchema ''properties''))
            \<and> JStr (''{ '' @ [CHR 0x27] @ ''id'' @ [CHR 0x27] @ ''?: number; ''
                  @ [CHR 0x27] @ ''name'' @ [CHR 0x27] @ '': string; ''
                  @ [CHR 0x27] @ ''flag'' @ [CHR 0x27] @ '': boolean; }'')
              = JStr (''{ '' @ concat (map2 (\<lambda>key t.
                      [CHR 0x27] @ key @ [CHR 0x27]
                      @ (if getProp petSchema ''required'' = JBool True
                            \<or> (\<exists>ks. getProp petSchema ''required'' = JArr ks \<and> JStr key \<in> set ks)
                            \<or> truthy (getProp (getProp (getProp petSchema ''properties'') key) ''required'')
                         then [] else ''?'')
                      @ '': '' @ toStr t @ ''; '') (objectKeys (getProp petSchema ''properties'')) ts) @ ''}'')"
    by (rule C6_required_marker [OF _ _ _ _ _ _ _ _ refl _ _ res])
       (simp_all add: petSchema_def inStrings_def hasMembers_def numberEnum_def dateEnum_def
          stringEnum_def image_iff)
  then show ?thesis using res keys by auto
qed

section \<open>C7: the array suffix and its parentheses\<close>

text \<open>
  C7, as the program has it. For an array schema (the declared type is \<open>array\<close>, and no
  reference, enumeration or numeric format overrides it) whose items are a single
  schema with the string expression \<open>T\<close>, the result is \<open>(T)[]\<close> when \<open>T\<close> contains the
  join \<open>|\<close> between blanks anywhere, and \<open>T[]\<close> otherwise. The test is containment: it
  does not look at where in \<open>T\<close> the join stands.
\<close>

theorem C7_array_suffix:
  assumes "isObject schemaObject"
    and "\<not> truthy (getProp schemaObject ''$ref'')"
    and "\<not> truthy (getProp schemaObject ''enum'')"
    and "\<not> inStrings (getProp schemaObject ''format'') numberEnum"
    and "getProp schemaObject ''type'' = JStr ''array''"
    and "items = (if truthy (getProp schemaObject ''schema'')
                  then getProp (getProp schemaObject ''schema'') ''items''
                  else getProp schemaObject ''items'')"
    and "\<not> (\<exists>subTypes. items = JArr subTypes)"
    and "defaultGetType h items ns = Inr (JStr arrayType)"
  shows "defaultGetType h schemaObject ns
         = Inr (JStr (if strIncludes arrayType '' | '' then ''('' @ arrayType @ '')[]''
                      else arrayType @ ''[]''))"
proof -
  have eff: "effectiveType schemaObject = JStr ''array''"
    using assms by (simp add: effectiveType_def)
  have fam: "\<not> inStrings (JStr ''array'') numberEnum" "\<not> inStrings (JStr ''array'') dateEnum"
    "\<not> inStrings (JStr ''array'') stringEnum"
    by (simp_all add: inStrings_def numberEnum_def dateEnum_def stringEnum_def)
  have "defaultGetType h schemaObject ns
        = (case items of
             JArr subTypes \<Rightarrow>
               (case mapE (\<lambda>subType.
                       if isNullish subType then Inl TypeError
                       else defaultGetType h
                              (if truthy (getProp subType ''schema'')
                               then getProp subType ''schema'' else subType) ns) subTypes of
                  Inl e \<Rightarrow> Inl e
                | Inr ts \<Rightarrow> Inr (JStr (''['' @ toStr (JArr ts) @ '']'')))
           | _ \<Rightarrow>
               (case defaultGetType h items ns of
                  Inl e \<Rightarrow> Inl e
                | Inr (JStr arrayType) \<Rightarrow>
                    Inr (JStr (if strIncludes arrayType '' | '' then ''('' @ arrayType @ '')[]''
                               else arrayType @ ''[]''))
                | Inr _ \<Rightarrow> Inl TypeError))"
    unfolding assms(6)
    by (subst defaultGetType.simps)
       (simp add: isObject_not_nullish assms(1,2,5) eff fam cong: json.case_cong)
  with assms(7,8) show ?thesis
    by (cases items) simp_all
qed


text \<open>The theorem at the array of \<open>string | number\<close>.\<close>

theorem C7_witness:
  "defaultGetType exampleHost unionItems [] = Inr (JStr ''string | number'')
   \<and> defaultGetType exampleHost (arrayOf unionItems) [] = Inr (JStr ''(string | number)[]'')"
proof -
  have i: "defaultGetType exampleHost unionItems [] = Inr (JStr ''string | number'')"
    by code_simp
  have "defaultGetType exampleHost (arrayOf unionItems) []
        = Inr (JStr (if strIncludes ''string | number'' '' | ''
                     then ''('' @ ''string | number'' @ '')[]''
                     else ''string | number'' @ ''[]''))"
    by (rule C7_array_suffix [where items = unionItems])
       (simp_all add: arrayOf_def unionItems_def inStrings_def i [unfolded unionItems_def])
  then show ?thesis using i by simp
qed

text \<open>
  C7 as the claim has it fails: the expression of an object with a union-typed property
  has no top-level or-join, and the array of it is parenthesised all the same.
\<close>

theorem C7_nested_union_counterexample:
  "defaultGetType exampleHost recordItems []
     = Inr (JStr (''{ '' @ [CHR 0x27] @ ''a'' @ [CHR 0x27] @ ''?: string | number; }''))
   \<and> \<not> specTopLevelUnion 0 (''{ '' @ [CHR 0x27] @ ''a'' @ [CHR 0x27] @ ''?: string | number; }'')
   \<and> defaultGetType exampleHost (arrayOf recordItems) []
     = Inr (JStr (''({ '' @ [CHR 0x27] @ ''a'' @ [CHR 0x27] @ ''?: string | number; })[]''))"
  by code_simp


section \<open>C1: the tag of an operation\<close>

text \<open>
  C1. The claim: the tags of an operation come from the hook, else the router field,
  else the declared tags, else the operation id, else the second segment of the path.
  In \<open>defaultGetFileTag\<close> the alternative before the last is the array around the
  operation id, and an array is truthy also when the id is absent; the path is never
  consulted. For an operation at \<open>/api/users\<close> without router field, tags and id the
  result is the one-element list holding \<open>undefined\<close>, not \<open>users\<close>; the name resolver
  turns it into the empty tag, and the operation is emitted in the file \<open>api0\<close>.
\<close>

theorem C1_path_segment_never_used:
  "defaultGetFileTag (JObj [(''summary'', JStr ''List the users'')]) ''/api/users'' ''get''
     = JArr [JUndefined]
   \<and> splitStr ''/'' (replaceFirst ''/api/users'' ''/'' []) ! 1 = ''users''
   \<and> groupOperations exampleHost plainConfig untaggedDoc
     = Inr [([], [\<lparr>api_path = ''/api/users'', api_method = ''get'',
                    api_op = JObj [(''summary'', JStr ''List the users'')]\<rparr>])]
   \<and> map_sum id (map (\<lambda>f. (className f, map functionName (operations f))))
       (generateServices exampleHost plainConfig untaggedDoc)
     = Inr [(''api0'', [''getApiUsers''])]"
  by code_simp

section \<open>C2: the order of a tag's operations\<close>

lemma set_insertByPath: "set (insertByPath le d xs) = insert d (set xs)"
  by (induction xs) auto

lemma sorted_insertByPath:
  assumes total: "\<And>a b. le a b \<or> le b a"
    and trans: "\<And>a b c. le a b \<Longrightarrow> le b c \<Longrightarrow> le a c"
    and "sorted_wrt (\<lambda>x y. le (path x) (path y)) xs"
  shows "sorted_wrt (\<lambda>x y. le (path x) (path y)) (insertByPath le d xs)"
  using assms(3)
proof (induction xs)
  case Nil
  then show ?case by simp
next
  case (Cons x xs)
  show ?case
  proof (cases "le (path d) (path x)")
    case True
    have "\<forall>y \<in> set xs. le (path x) (path y)" using Cons.prems by simp
    with True have "\<forall>y \<in> set xs. le (path d) (path y)" using trans by blast
    with True Cons.prems show ?thesis by simp
  next
    case False
    with total have "le (path x) (path d)" by blast
    moreover have "\<forall>y \<in> set xs. le (path x) (path y)" using Cons.prems by simp
    moreover have "sorted_wrt (\<lambda>x y. le (path x) (path y)) (insertByPath le d xs)"
      using Cons by simp
    ultimately show ?thesis using False by (simp add: set_insertByPath)
  qed
qed

lemma sorted_sortByPath:
  assumes "\<And>a b. le a b \<or> le b a"
    and "\<And>a b c. le a b \<Longrightarrow> le b c \<Longrightarrow> le a c"
  shows "sorted_wrt (\<lambda>x y. le (path x) (path y)) (sortByPath le ds)"
proof (induction ds)
  case Nil
  show ?case by (simp add: sortByPath_def)
next
  case (Cons d ds)
  have "sortByPath le (d # ds) = insertByPath le d (sortByPath le ds)"
    by (simp add: sortByPath_def)
  moreover have "sorted_wrt (\<lambda>x y. le (path x) (path y)) (insertByPath le d (sortByPath le ds))"
    by (rule sorted_insertByPath) (use assms Cons in blast)+
  ultimately show ?case by simp
qed

lemma serviceFiles_sorted:
  assumes "serviceFiles h cfg index openAPIData maps apiData = Inr (files, openAPIData', maps')"
    and "\<And>a b. localeLe h a b \<or> localeLe h b a"
    and "\<And>a b c. localeLe h a b \<Longrightarrow> localeLe h b c \<Longrightarrow> localeLe h a c"
  shows "\<forall>f \<in> set files. sorted_wrt (\<lambda>x y. localeLe h (path x) (path y)) (operations f)"
  using assms(1)
proof (induction apiData arbitrary: index openAPIData maps files)
  case Nil
  then show ?case by simp
next
  case (Cons te rest)
  obtain tag entries where te: "te = (tag, entries)" by (cases te)
  from Cons.prems te obtain genParams doc1 maps1 files' where
    g: "genParamsOfTag h cfg tag openAPIData maps entries = Inr (genParams, doc1, maps1)"
    and r: "serviceFiles h cfg (Suc index) doc1 maps1 rest = Inr (files', openAPIData', maps')"
    and f: "files = fileOfTag cfg tag index genParams # files'"
    by (auto split: sum.splits)
  from g obtain ds where "genParams = sortByPath (localeLe h) ds"
    by (auto simp: genParamsOfTag_def split: sum.splits)
  moreover have "sorted_wrt (\<lambda>x y. localeLe h (path x) (path y)) (sortByPath (localeLe h) ds)"
    by (rule sorted_sortByPath) (use assms(2,3) in blast)+
  ultimately have "sorted_wrt (\<lambda>x y. localeLe h (path x) (path y)) genParams" by simp
  moreover have "operations (fileOfTag cfg tag index genParams) = genParams"
    by (simp add: fileOfTag_def Let_def)
  ultimately show ?case using Cons.IH [OF r] f by auto
qed

text \<open>
  C2. When the comparison of the host is total and transitive, every list that
  \<open>getServiceTP\<close> emits is sorted by the \<open>path\<close> member of its descriptors, the path after
  the rewrite of the template variables, the vendor replacement, the aliases and the
  prefix: of any two descriptors the earlier one's path compares less than or equal to
  the later one's.
\<close>

theorem C2_sorted_by_final_path:
  assumes "getServiceTP h cfg openAPIData apiData = Inr (files, openAPIData')"
    and "\<forall>a b. localeLe h a b \<or> localeLe h b a"
    and "\<forall>a b c. localeLe h a b \<longrightarrow> localeLe h b c \<longrightarrow> localeLe h a c"
  shows "\<forall>f \<in> set files.
           sorted_wrt (\<lambda>earlier later. localeLe h (path earlier) (path later)) (operations f)"
proof -
  from assms(1) obtain files0 maps where
    s: "serviceFiles h cfg 0 openAPIData [] apiData = Inr (files0, openAPIData', maps)"
    and f: "files = filter (\<lambda>f. operations f \<noteq> []) files0"
    by (auto simp: getServiceTP_def split: sum.splits)
  have "\<forall>f \<in> set files0. sorted_wrt (\<lambda>x y. localeLe h (path x) (path y)) (operations f)"
    by (rule serviceFiles_sorted [OF s]) (use assms(2,3) in blast)+
  with f show ?thesis by simp
qed

text \<open>The theorem at a document whose traversal order is not the sorted one.\<close>

theorem C2_witness:
  "groupOperations exampleHost plainConfig listDoc = Inr listGroups
   \<and> (\<exists>files openAPIData'.
         getServiceTP exampleHost plainConfig listDoc listGroups = Inr (files, openAPIData')
         \<and> map (\<lambda>f. map path (operations f)) files = [[''/members'', ''/users'']]
         \<and> list_all (\<lambda>f. sorted_wrt (\<lambda>earlier later.
                              localeLe exampleHost (path earlier) (path later)) (operations f))
              files)"
proof -
  have g: "groupOperations exampleHost plainConfig listDoc = Inr listGroups"
    by code_simp
  have "map_sum id (\<lambda>r. map (\<lambda>f. map path (operations f)) (fst r))
          (getServiceTP exampleHost plainConfig listDoc listGroups)
        = Inr [[''/members'', ''/users'']]"
    by code_simp
  then obtain files doc' where
    f: "getServiceTP exampleHost plainConfig listDoc listGroups = Inr (files, doc')"
    and p: "map (\<lambda>f. map path (operations f)) files = [[''/members'', ''/users'']]"
    by (cases "getServiceTP exampleHost plainConfig listDoc listGroups") auto
  have tot: "\<forall>a b. localeLe exampleHost a b \<or> localeLe exampleHost b a"
    by (auto simp: exampleHost_def)
  have tr: "\<forall>a b c. localeLe exampleHost a b \<longrightarrow> localeLe exampleHost b c \<longrightarrow> localeLe exampleHost a c"
    by (auto simp: exampleHost_def)
  from C2_sorted_by_final_path [OF f tot tr] f p g show ?thesis
    by (auto simp: list_all_iff)
qed

section \<open>C5: colliding function names\<close>

lemma earlier_keys:
  assumes "objectKeysE (getProp doc' ''paths'') = objectKeysE (getProp doc ''paths'')"
  shows "earlier h cfg doc' name entries = earlier h cfg doc name entries"
  unfolding earlier_def getFuncationName_keys [OF assms] ..

lemma describeAll_names:
  assumes "describeAll h cfg tag openAPIData rd maps entries = Inr (ds, openAPIData', maps')"
    and "\<forall>n. n \<noteq> [] \<longrightarrow> inheritedMember h n = None
             \<longrightarrow> rd n = (if cnt n = 0 then None else Some (Count (cnt n)))"
  shows "length ds = length entries
       \<and> (\<forall>i<length entries. \<exists>name.
             getFuncationName h cfg openAPIData (entries ! i) = Inr name
           \<and> (inheritedMember h name = None \<longrightarrow>
               functionName (ds ! i)
               = caseFold h cfg
                   (if name = [] then []
                    else if cnt name + earlier h cfg openAPIData name (take i entries) = 0 then name
                    else name @ ''_''
                         @ digitsOf (Suc (cnt name + earlier h cfg openAPIData name (take i entries))))))"
  using assms(1,2)
proof (induction entries arbitrary: openAPIData rd maps ds cnt)
  case Nil
  then show ?case by simp
next
  case (Cons a entries)
  from Cons.prems(1) obtain d doc1 rd1 maps1 ds1 where
    d: "describeOperation h cfg tag openAPIData rd maps a = Inr (d, doc1, rd1, maps1)"
    and r: "describeAll h cfg tag doc1 rd1 maps1 entries = Inr (ds1, openAPIData', maps')"
    and ds: "ds = d # ds1"
    by (auto split: sum.splits)
  from describeOperation_document [OF d] obtain res where
    "getResponseTP h cfg openAPIData (operationLoc a @ [''responses'']) = Inr (res, doc1)" ..
  from getResponseTP_keys [OF this]
  have keys: "objectKeysE (getProp doc1 ''paths'') = objectKeysE (getProp openAPIData ''paths'')" .
  from describeOperation_name [OF d] obtain name where
    n: "getFuncationName h cfg openAPIData a = Inr name"
    and fn: "functionName d = caseFold h cfg (fst (uniqueName h rd name))"
    and rd1: "rd1 = snd (uniqueName h rd name)"
    by (auto simp: caseFold_def)
  define cnt1 where "cnt1 = (if name = [] then cnt else cnt(name := Suc (cnt name)))"
  have inv1: "\<forall>m. m \<noteq> [] \<longrightarrow> inheritedMember h m = None
                \<longrightarrow> rd1 m = (if cnt1 m = 0 then None else Some (Count (cnt1 m)))"
  proof (intro allI impI)
    fix m :: string
    assume m: "m \<noteq> []" "inheritedMember h m = None"
    with Cons.prems(2) have rdm: "rd m = (if cnt m = 0 then None else Some (Count (cnt m)))"
      by blast
    show "rd1 m = (if cnt1 m = 0 then None else Some (Count (cnt1 m)))"
    proof (cases "m = name")
      case True
      with m rdm show ?thesis
        unfolding rd1 cnt1_def uniqueName_def by simp
    next
      case False
      then have "rd1 m = rd m"
        unfolding rd1 uniqueName_def
        by (auto split: option.splits counter.splits)
      with False rdm show ?thesis by (simp add: cnt1_def)
    qed
  qed
  have first: "functionName d
      = caseFold h cfg (if name = [] then [] else if cnt name = 0 then name
         else name @ ''_'' @ digitsOf (Suc (cnt name)))"
    if "inheritedMember h name = None"
  proof (cases "name = []")
    case True
    then show ?thesis unfolding fn uniqueName_def by simp
  next
    case False
    with that Cons.prems(2)
    have "rd name = (if cnt name = 0 then None else Some (Count (cnt name)))" by blast
    with False that show ?thesis unfolding fn uniqueName_def by simp
  qed
  from Cons.IH [OF r inv1, unfolded getFuncationName_keys [OF keys] earlier_keys [OF keys]]
  have len: "length ds1 = length entries"
    and rest: "\<And>i. i < length entries \<Longrightarrow> \<exists>m.
             getFuncationName h cfg openAPIData (entries ! i) = Inr m
           \<and> (inheritedMember h m = None \<longrightarrow>
               functionName (ds1 ! i)
               = caseFold h cfg
                  (if m = [] then []
                   else if cnt1 m + earlier h cfg openAPIData m (take i entries) = 0 then m
                   else m @ ''_''
                        @ digitsOf (Suc (cnt1 m + earlier h cfg openAPIData m (take i entries)))))"
    by auto
  have shift: "cnt1 m + earlier h cfg openAPIData m (take i entries)
             = cnt m + earlier h cfg openAPIData m (take (Suc i) (a # entries))"
    if "m \<noteq> []" for m i
    using that n by (auto simp: cnt1_def earlier_def)
  show ?case
  proof (intro conjI allI impI)
    show "length ds = length (a # entries)" using ds len by simp
  next
    fix i assume i: "i < length (a # entries)"
    show "\<exists>name. getFuncationName h cfg openAPIData ((a # entries) ! i) = Inr name
           \<and> (inheritedMember h name = None \<longrightarrow>
               functionName (ds ! i)
               = caseFold h cfg
                  (if name = [] then []
                   else if cnt name + earlier h cfg openAPIData name (take i (a # entries)) = 0
                   then name
                   else name @ ''_''
                        @ digitsOf (Suc (cnt name
                                         + earlier h cfg openAPIData name (take i (a # entries))))))"
    proof (cases i)
      case 0
      with n first ds show ?thesis by (auto simp: earlier_def)
    next
      case (Suc j)
      with i have j: "j < length entries" by simp
      from rest [OF j] obtain m where
        mf: "getFuncationName h cfg openAPIData (entries ! j) = Inr m
           \<and> (inheritedMember h m = None \<longrightarrow>
                functionName (ds1 ! j)
                = caseFold h cfg
                   (if m = [] then []
                    else if cnt1 m + earlier h cfg openAPIData m (take j entries) = 0 then m
                    else m @ ''_''
                         @ digitsOf (Suc (cnt1 m + earlier h cfg openAPIData m (take j entries)))))"
        ..
      then have m: "getFuncationName h cfg openAPIData (entries ! j) = Inr m"
        and f: "inheritedMember h m = None \<longrightarrow>
                functionName (ds1 ! j)
                = caseFold h cfg
                   (if m = [] then []
                    else if cnt1 m + earlier h cfg openAPIData m (take j entries) = 0 then m
                    else m @ ''_''
                         @ digitsOf (Suc (cnt1 m + earlier h cfg openAPIData m (take j entries))))"
        by (rule conjunct1, rule conjunct2)
      show ?thesis
      proof (cases "m = []")
        case True
        with m f Suc ds show ?thesis by auto
      next
        case False
        from shift [OF False, of j] m f Suc ds False show ?thesis
          by (intro exI [of _ m]) simp
      qed
    qed
  qed
qed


text \<open>
  C5, as the program has it. The list a tag emits is the sort of its descriptors in
  encounter order. There, an operation whose synthesized name is not empty, is not
  the name of a member that a plain object inherits, and has not occurred before keeps
  it; one whose name has occurred \<open>seen\<close> times before gets the suffix \<open>_\<close> and \<open>seen + 1\<close>;
  an empty name is left as it is. With \<open>isCamelCase\<close> the result is passed through
  \<open>camelCase\<close> before it is emitted. Nothing is said of a name that a plain object
  inherits, such as \<open>toString\<close>.
\<close>

theorem C5_collision_suffix:
  assumes "genParamsOfTag h cfg tag openAPIData maps entries = Inr (genParams, openAPIData', maps')"
  shows "\<exists>ds. genParams = sortByPath (localeLe h) ds
            \<and> length ds = length (supportedEntries entries)
            \<and> (\<forall>i<length (supportedEntries entries). \<exists>name.
                  getFuncationName h cfg openAPIData (supportedEntries entries ! i) = Inr name
                \<and> (inheritedMember h name = None \<longrightarrow>
                    functionName (ds ! i)
                    = (let seen = length (filter (\<lambda>a. getFuncationName h cfg openAPIData a = Inr name)
                                            (take i (supportedEntries entries)));
                           unique = (if name = [] then []
                                     else if seen = 0 then name
                                     else name @ ''_'' @ digitsOf (Suc seen))
                       in if isCamelCase cfg then camelCase h unique else unique)))"
proof -
  from assms obtain ds where
    d: "describeAll h cfg tag openAPIData Map.empty maps (supportedEntries entries)
          = Inr (ds, openAPIData', maps')"
    and g: "genParams = sortByPath (localeLe h) ds"
    by (auto simp: genParamsOfTag_def split: sum.splits)
  have "\<forall>n. n \<noteq> [] \<longrightarrow> inheritedMember h n = None
          \<longrightarrow> Map.empty n = (if (\<lambda>_. 0::nat) n = 0 then None else Some (Count ((\<lambda>_. 0) n)))"
    by simp
  from describeAll_names [OF d this, unfolded add_0]
  have len: "length ds = length (supportedEntries entries)"
    and names: "\<And>i. i < length (supportedEntries entries) \<Longrightarrow> \<exists>name.
             getFuncationName h cfg openAPIData (supportedEntries entries ! i) = Inr name
           \<and> (inheritedMember h name = None \<longrightarrow>
               functionName (ds ! i)
               = caseFold h cfg
                   (if name = [] then []
                    else if earlier h cfg openAPIData name (take i (supportedEntries entries)) = 0
                    then name
                    else name @ ''_''
                         @ digitsOf (Suc (earlier h cfg openAPIData name
                                            (take i (supportedEntries entries))))))"
    by blast+
  show ?thesis
  proof (intro exI [of _ ds] conjI allI impI)
    fix i assume "i < length (supportedEntries entries)"
    from names [OF this] obtain name where
      "getFuncationName h cfg openAPIData (supportedEntries entries ! i) = Inr name
       \<and> (inheritedMember h name = None \<longrightarrow>
            functionName (ds ! i)
             = caseFold h cfg
                 (if name = [] then []
                  else if earlier h cfg openAPIData name (take i (supportedEntries entries)) = 0
                  then name
                  else name @ ''_''
                       @ digitsOf (Suc (earlier h cfg openAPIData name
                                          (take i (supportedEntries entries))))))"
      ..
    then show "\<exists>name.
                  getFuncationName h cfg openAPIData (supportedEntries entries ! i) = Inr name
                \<and> (inheritedMember h name = None \<longrightarrow>
                    functionName (ds ! i)
                    = (let seen = length (filter (\<lambda>a. getFuncationName h cfg openAPIData a = Inr name)
                                            (take i (supportedEntries entries)));
                           unique = (if name = [] then []
                                     else if seen = 0 then name
                                     else name @ ''_'' @ digitsOf (Suc seen))
                       in if isCamelCase cfg then camelCase h unique else unique))"
      by (intro exI [of _ name]) (simp add: earlier_def caseFold_def Let_def)
  qed (use g len in simp_all)
qed


text \<open>
  The theorem at two operations named \<open>listUsers\<close>, a name that a plain object does not
  inherit: the first keeps it, the later one is \<open>listUsers_2\<close>.
\<close>

theorem C5_witness:
  "(case genParamsOfTag exampleHost plainConfig ''user'' listDoc [] (snd (hd listGroups)) of
      Inl e \<Rightarrow> []
    | Inr (genParams, state) \<Rightarrow> map (\<lambda>d. (path d, functionName d)) genParams)
     = [(''/members'', ''listUsers_2''), (''/users'', ''listUsers'')]
   \<and> inheritedMember exampleHost ''listUsers'' = None
   \<and> (\<exists>genParams state ds.
         genParamsOfTag exampleHost plainConfig ''user'' listDoc [] (snd (hd listGroups))
           = Inr (genParams, state)
       \<and> genParams = sortByPath (localeLe exampleHost) ds
       \<and> map functionName ds = [''listUsers'', ''listUsers_2''])"
proof -
  let ?entries = "snd (hd listGroups)"
  have ev: "(case genParamsOfTag exampleHost plainConfig ''user'' listDoc [] ?entries of
      Inl e \<Rightarrow> []
    | Inr (genParams, state) \<Rightarrow> map (\<lambda>d. (path d, functionName d)) genParams)
     = [(''/members'', ''listUsers_2''), (''/users'', ''listUsers'')]"
    by code_simp
  then obtain genParams doc' maps where
    g: "genParamsOfTag exampleHost plainConfig ''user'' listDoc [] ?entries
          = Inr (genParams, doc', maps)"
    by (cases "genParamsOfTag exampleHost plainConfig ''user'' listDoc [] ?entries") auto
  have n: "length (supportedEntries ?entries) = 2"
    by code_simp
  have n0: "getFuncationName exampleHost plainConfig listDoc (supportedEntries ?entries ! 0)
              = Inr ''listUsers''"
    by code_simp
  have n1: "getFuncationName exampleHost plainConfig listDoc (supportedEntries ?entries ! 1)
              = Inr ''listUsers''"
    by code_simp
  have inh: "inheritedMember exampleHost ''listUsers'' = None"
    by code_simp
  have s0: "length (filter (\<lambda>a. getFuncationName exampleHost plainConfig listDoc a = Inr ''listUsers'')
                      (take 0 (supportedEntries ?entries))) = 0"
    by simp
  have s1: "length (filter (\<lambda>a. getFuncationName exampleHost plainConfig listDoc a = Inr ''listUsers'')
                      (take 1 (supportedEntries ?entries))) = 1"
    by code_simp
  have cc: "\<not> isCamelCase plainConfig" by (simp add: plainConfig_def)
  have d2: "digitsOf 2 = ''2''" by code_simp
  from C5_collision_suffix [OF g] obtain ds where
    srt: "genParams = sortByPath (localeLe exampleHost) ds"
    and len: "length ds = length (supportedEntries ?entries)"
    and names: "\<And>i. i < length (supportedEntries ?entries) \<Longrightarrow> \<exists>name.
        getFuncationName exampleHost plainConfig listDoc (supportedEntries ?entries ! i) = Inr name
      \<and> (inheritedMember exampleHost name = None \<longrightarrow>
          functionName (ds ! i)
          = (let seen = length (filter (\<lambda>a. getFuncationName exampleHost plainConfig listDoc a
                                              = Inr name)
                                  (take i (supportedEntries ?entries)));
                 unique = (if name = [] then []
                           else if seen = 0 then name
                           else name @ ''_'' @ digitsOf (Suc seen))
             in if isCamelCase plainConfig then camelCase exampleHost unique else unique))"
    by blast
  from names [of 0] n n0 inh s0 cc have f0: "functionName (ds ! 0) = ''listUsers''"
    by (auto simp: Let_def)
  from names [of 1] n n1 inh s1 cc d2 have f1: "functionName (ds ! 1) = ''listUsers_2''"
    by (auto simp: Let_def numeral_2_eq_2)
  from len n have "ds = [ds ! 0, ds ! 1]"
    by (cases ds; cases "tl ds") auto
  then have "map functionName ds = [functionName (ds ! 0), functionName (ds ! 1)]"
    by (metis list.simps(8,9))
  with f0 f1 have nm: "map functionName ds = [''listUsers'', ''listUsers_2'']" by simp
  have "\<exists>genParams state ds.
         genParamsOfTag exampleHost plainConfig ''user'' listDoc [] ?entries
           = Inr (genParams, state)
       \<and> genParams = sortByPath (localeLe exampleHost) ds
       \<and> map functionName ds = [''listUsers'', ''listUsers_2'']"
    by (intro exI [of _ genParams] exI [of _ "(doc', maps)"] exI [of _ ds] conjI g srt nm)
  with ev inh show ?thesis by simp
qed

text \<open>
  C5 as the claim has it fails under \<open>isCamelCase\<close>, where the suffixed name is folded to
  \<open>listUsers2\<close>, and for a function-name hook that returns the empty name, which is
  never suffixed.
\<close>

theorem C5_case_folded_counterexample:
  "map_sum id (map (\<lambda>f. map (\<lambda>d. (path d, functionName d)) (operations f)))
     (generateServices foldingHost (plainConfig\<lparr>isCamelCase := True\<rparr>) listDoc)
     = Inr [[(''/members'', ''listUsers2''), (''/users'', ''listUsers'')]]
   \<and> map_sum id (map (\<lambda>f. map (\<lambda>d. (path d, functionName d)) (operations f)))
       (generateServices exampleHost (plainConfig\<lparr>customFunctionName := Some (\<lambda>a. [])\<rparr>) listDoc)
     = Inr [[(''/members'', []), (''/users'', [])]]"
  by code_simp

text \<open>
  The counter at a name that a plain object inherits: the first operation named
  \<open>toString\<close> is already suffixed, with the text of the inherited member followed by \<open>1\<close>,
  and the second one with that text followed by \<open>11\<close>.
\<close>

lemma inherited_name_is_suffixed:
  "map_sum id (map (\<lambda>f. map functionName (operations f)))
     (generateServices exampleHost plainConfig toStringDoc)
     = Inr [[''toString_function toString() { [native code] }1'',
             ''toString_function toString() { [native code] }11'']]"
  by code_simp

section \<open>C8: aliases of the path parameters\<close>

text \<open>
  C8. The claim: the rewritten path refers to every path parameter by its alias. The
  substitution is one first-occurrence \<open>replace\<close> per parameter, each on the result of
  the one before. For \<open>/a/{x}/{param0}\<close> the first step puts \<open>${param0}\<close> in the place of
  \<open>x\<close>, and the second step, meant for the parameter named \<open>param0\<close>, rewrites that
  place: the two aliases end up exchanged. For \<open>/a/{id}/b/{id}\<close> the second token keeps
  the original name. The path of the specification's example is rewritten as claimed.
\<close>

theorem C8_alias_substitution_misses:
  "map_sum id (map (\<lambda>f. map pathAliases (operations f)))
     (generateServices exampleHost plainConfig aliasDoc)
     = Inr [[(''/a/${param0}/b/${id}'', [(JStr ''id'', JStr ''param0'')]),
             (''/a/${param1}/${param0}'',
              [(JStr ''x'', JStr ''param0''), (JStr ''param0'', JStr ''param1'')]),
             (''/users/${param0}/posts/${param1}'',
              [(JStr ''id'', JStr ''param0''), (JStr ''postId'', JStr ''param1'')])]]"
  by code_simp


section \<open>C10: default function names and the shared path prefix\<close>

text \<open>
  C10. The claim: without a function-name hook and without an operation id, the default
  name is the method followed by the title-cased path segments that remain after the
  longest segment-wise prefix common to all paths is removed, so a leading segment that
  every path shares never shows in a default name. On the document with the paths
  \<open>/api/users\<close> and \<open>/api/users/{id}\<close> the program computes the prefix
  \<open>/api/users/{id}/\<close>: a column counts as shared as soon as the paths that reach it
  agree, and the trailing \<open>/\<close> is added. That string occurs in neither path, nothing is
  removed, and the shared segments \<open>api\<close> and \<open>users\<close> show in both names.
\<close>

theorem C10_shared_segment_kept:
  "getBasePrefix [''/api/users'', ''/api/users/{id}''] = ''/api/users/{id}/''
   \<and> getFuncationName exampleHost plainConfig usersDoc
         \<lparr>api_path = ''/api/users'', api_method = ''get'', api_op = JObj []\<rparr>
       = Inr ''getApiUsers''
   \<and> getFuncationName exampleHost plainConfig usersDoc
         \<lparr>api_path = ''/api/users/{id}'', api_method = ''get'', api_op = JObj []\<rparr>
       = Inr ''getApiUsersId''"
  by code_simp

section \<open>C9: the writes into the input document\<close>




end
